theory Spec2Isabelle
  imports Main
begin

section \<open>Data model (app/models.py)\<close>

text \<open>
  The four SQLAlchemy models become records and the database becomes a record of tables,
  each table a list of rows in insertion order. Primary keys are the uuid4 strings the
  models generate; a timestamp is the integer reading of \<^verbatim>\<open>datetime.utcnow()\<close>.
  Columns that several models share (\<^verbatim>\<open>id\<close>, \<^verbatim>\<open>slug\<close>, \<^verbatim>\<open>content\<close>,
  \<^verbatim>\<open>created_at\<close>, \<^verbatim>\<open>user_id\<close>, \<^verbatim>\<open>post_id\<close>) carry the model's name as a
  prefix, since a record field is a constant of the theory. Columns the handlers always
  fill are not optional here; \<^verbatim>\<open>published_at\<close>, \<^verbatim>\<open>last_login\<close> and the comment's
  \<^verbatim>\<open>user_id\<close> are \<^verbatim>\<open>None\<close> until set. A string is a list of code points and a
  \<open>char\<close> is one code point from U+0000 to U+00FF (so \<open>CHR 0xE9\<close> is the letter e with
  acute accent); text with code points beyond U+00FF has no value in this type. Column
  length limits and foreign-key enforcement are left to the database engine and are not
  part of the model.
\<close>

type_synonym uuid = string
type_synonym datetime = int

record user =
  user_id :: uuid
  username :: string
  email :: string
  password_hash :: string
  first_name :: string
  last_name :: string
  is_active :: bool
  is_admin :: bool
  user_created_at :: datetime
  user_updated_at :: datetime
  last_login :: "datetime option"

record post =
  post_id :: uuid
  title :: string
  post_content :: string
  excerpt :: string
  post_slug :: string
  is_published :: bool
  published_at :: "datetime option"
  post_created_at :: datetime
  post_updated_at :: datetime
  post_user_id :: uuid

record tag =
  tag_id :: uuid
  tag_name :: string
  tag_slug :: string
  description :: string
  tag_created_at :: datetime

record comment =
  comment_id :: uuid
  comment_content :: string
  is_approved :: bool
  author_name :: string
  author_email :: string
  comment_created_at :: datetime
  comment_post_id :: uuid
  comment_user_id :: "uuid option"

record db =
  users :: "user list"
  posts :: "post list"
  tags :: "tag list"
  comments :: "comment list"
  post_tags :: "(uuid \<times> uuid) list"

text \<open>
  A response is a status code and a body. The body keeps the row that \<^verbatim>\<open>to_dict()\<close>
  serialises; the tokens issued at registration belong to the token library and are left
  out of the body.
\<close>

datatype body =
    ErrorBody string
  | MessageBody string
  | PostBody post
  | MessagePost string post
  | MessageTag string tag
  | MessageComment string comment
  | MessageUser string user
  | TagList "tag list"
  | CommentList "comment list"
  | PostPage "post list" nat nat int
  | UserPage "user list" nat nat int
  | CommentPage "comment list" nat nat int
  | TagPostPage tag "post list" nat nat int

datatype response = Response nat body

fun status :: "response \<Rightarrow> nat" where
  "status (Response n b) = n"

fun payload :: "response \<Rightarrow> body" where
  "payload (Response n b) = b"

text \<open>\<^verbatim>\<open>Model.query.get(id)\<close>: the row with that primary key, if any.\<close>

definition get_user :: "db \<Rightarrow> uuid \<Rightarrow> user option" where
  "get_user d uid = find (\<lambda>u. user_id u = uid) (users d)"

definition get_post_row :: "db \<Rightarrow> uuid \<Rightarrow> post option" where
  "get_post_row d pid = find (\<lambda>p. post_id p = pid) (posts d)"

definition get_comment :: "db \<Rightarrow> uuid \<Rightarrow> comment option" where
  "get_comment d cid = find (\<lambda>c. comment_id c = cid) (comments d)"

section \<open>Slug allocation (app/api/routes.py, create_post)\<close>

subsection \<open>String operations of the slug expression\<close>

text \<open>
  \<^verbatim>\<open>str.isalnum\<close> on the code points U+0000 to U+00FF, by the Unicode character
  database that Python reads: the ASCII digits and letters; the letters U+00AA, U+00B5
  and U+00BA; the superscript digits U+00B2, U+00B3, U+00B9 and the fractions U+00BC to
  U+00BE, which are numeric; and the letters U+00C0 to U+00FF without the multiplication
  sign U+00D7 and the division sign U+00F7.
\<close>

definition isalnum :: "char \<Rightarrow> bool" where
  "isalnum c =
     (let n = (of_char c :: nat)
      in (48 \<le> n \<and> n \<le> 57) \<or> (65 \<le> n \<and> n \<le> 90) \<or> (97 \<le> n \<and> n \<le> 122)
         \<or> n = 170 \<or> n = 178 \<or> n = 179 \<or> n = 181 \<or> n = 185 \<or> n = 186
         \<or> (188 \<le> n \<and> n \<le> 190)
         \<or> (192 \<le> n \<and> n \<le> 214) \<or> (216 \<le> n \<and> n \<le> 246) \<or> 248 \<le> n)"

text \<open>
  \<^verbatim>\<open>str.lower\<close> on the same range: the upper-case letters are A to Z and U+00C0 to
  U+00DE without U+00D7, and each has its lower-case form 32 code points further on; every
  other code point is its own lower-case form.
\<close>

definition lower_char :: "char \<Rightarrow> char" where
  "lower_char c =
     (let n = (of_char c :: nat)
      in if (65 \<le> n \<and> n \<le> 90) \<or> (192 \<le> n \<and> n \<le> 214) \<or> (216 \<le> n \<and> n \<le> 222)
         then char_of (n + 32) else c)"

definition lower :: "string \<Rightarrow> string" where
  "lower s = map lower_char s"

text \<open>\<^verbatim>\<open>s.replace(a, b)\<close> for one-character \<^verbatim>\<open>a\<close> and \<^verbatim>\<open>b\<close>.\<close>

definition replace :: "char \<Rightarrow> char \<Rightarrow> string \<Rightarrow> string" where
  "replace a b s = map (\<lambda>c. if c = a then b else c) s"

text \<open>\<^verbatim>\<open>s.strip('-')\<close>: hyphens dropped at both ends.\<close>

definition strip_hyphens :: "string \<Rightarrow> string" where
  "strip_hyphens s =
     rev (dropWhile (\<lambda>c. c = CHR ''-'') (rev (dropWhile (\<lambda>c. c = CHR ''-'') s)))"

text \<open>
  Line 72: \<^verbatim>\<open>data.get('slug') or data['title'].lower().replace(' ', '-').replace('_', '-')\<close>.
  A missing or empty \<^verbatim>\<open>slug\<close> is falsy, and then the title gives the seed.
\<close>

definition slug_seed :: "string option \<Rightarrow> string \<Rightarrow> string" where
  "slug_seed supplied t =
     (case supplied of
        None \<Rightarrow> replace (CHR ''_'') (CHR ''-'') (replace (CHR '' '') (CHR ''-'') (lower t))
      | Some s \<Rightarrow>
          if s = [] then replace (CHR ''_'') (CHR ''-'') (replace (CHR '' '') (CHR ''-'') (lower t))
          else s)"

text \<open>Line 73: \<^verbatim>\<open>''.join(c for c in slug if c.isalnum() or c in '-').strip('-')\<close>.\<close>

definition candidate :: "string option \<Rightarrow> string \<Rightarrow> string" where
  "candidate supplied t =
     strip_hyphens (filter (\<lambda>c. isalnum c \<or> c = CHR ''-'') (slug_seed supplied t))"

subsection \<open>Decimal rendering of the counter\<close>

definition digit_char :: "nat \<Rightarrow> char" where
  "digit_char d = ''0123456789'' ! d"

fun str_nat :: "nat \<Rightarrow> string" where
  "str_nat n = (if n < 10 then [digit_char n] else str_nat (n div 10) @ [digit_char (n mod 10)])"

declare str_nat.simps [simp del]

text \<open>The f-string \<^verbatim>\<open>f"{original_slug}-{counter}"\<close>.\<close>

definition suffixed :: "string \<Rightarrow> nat \<Rightarrow> string" where
  "suffixed original_slug counter = original_slug @ ''-'' @ str_nat counter"

lemma digit_char_inj:
  assumes "a < 10" "b < 10" "digit_char a = digit_char b"
  shows "a = b"
proof -
  have a: "a \<in> {0, 1, 2, 3, 4, 5, 6, 7, 8, 9}" using assms(1) by auto
  have b: "b \<in> {0, 1, 2, 3, 4, 5, 6, 7, 8, 9}" using assms(2) by auto
  from a b assms(3) show ?thesis
    by (auto simp: digit_char_def)
qed

lemma str_nat_nonempty: "str_nat n \<noteq> []"
  by (subst str_nat.simps) simp

lemma str_nat_inj: "str_nat m = str_nat n \<Longrightarrow> m = n"
proof (induction m arbitrary: n rule: str_nat.induct)
  case (1 m)
  show ?case
  proof (cases "m < 10")
    case small_m: True
    show ?thesis
    proof (cases "n < 10")
      case True
      with small_m "1.prems" show ?thesis
        by (simp add: str_nat.simps [of m] str_nat.simps [of n] digit_char_inj)
    next
      case False
      with small_m "1.prems" show ?thesis
        using str_nat_nonempty [of "n div 10"]
        by (simp add: str_nat.simps [of m] str_nat.simps [of n])
    qed
  next
    case big_m: False
    show ?thesis
    proof (cases "n < 10")
      case True
      with big_m "1.prems" show ?thesis
        using str_nat_nonempty [of "m div 10"]
        by (simp add: str_nat.simps [of m] str_nat.simps [of n])
    next
      case False
      with big_m "1.prems" have eqs:
        "str_nat (m div 10) = str_nat (n div 10)" "digit_char (m mod 10) = digit_char (n mod 10)"
        by (simp_all add: str_nat.simps [of m] str_nat.simps [of n])
      from "1.IH" [OF big_m eqs(1)] have d: "m div 10 = n div 10" .
      have "m mod 10 = n mod 10"
        using eqs(2) by (intro digit_char_inj) simp_all
      with d show ?thesis
        by (metis div_mult_mod_eq)
    qed
  qed
qed

lemma suffixed_inj: "suffixed c j = suffixed c k \<Longrightarrow> j = k"
  by (simp add: suffixed_def str_nat_inj)

lemma suffixed_neq_bare: "suffixed c k \<noteq> c"
  by (simp add: suffixed_def)

lemma finite_suffixes: "finite {k. suffixed c k \<in> set taken}"
proof -
  have "inj (suffixed c)"
    by (rule injI) (rule suffixed_inj)
  then have "finite (suffixed c -` set taken)"
    by (intro finite_vimageI) simp_all
  then show ?thesis
    by (simp add: vimage_def)
qed

subsection \<open>The uniqueness loop\<close>

text \<open>
  Lines 76-80:
  \<^verbatim>\<open>
  original_slug = slug
  counter = 1
  while Post.query.filter_by(slug=slug).first():
      slug = f"{original_slug}-{counter}"
      counter += 1
  \<close>
  The loop state is the pair of \<^verbatim>\<open>slug\<close> and \<^verbatim>\<open>counter\<close>; \<open>taken\<close> is the
  \<^verbatim>\<open>slug\<close> column of the table. The loop ends because the table is finite and the
  suffixed slugs are pairwise different.
\<close>

function unique_slug :: "string list \<Rightarrow> string \<Rightarrow> string \<Rightarrow> nat \<Rightarrow> string" where
  "unique_slug taken original_slug s counter =
     (if s \<in> set taken
      then unique_slug taken original_slug (suffixed original_slug counter) (counter + 1)
      else s)"
  by pat_completeness auto
termination
proof (relation "measure (\<lambda>(taken, original_slug, s, counter).
         2 * card {k. counter \<le> k \<and> suffixed original_slug k \<in> set taken}
         + (if s \<in> set taken then 1 else 0))")
  show "wf (measure (\<lambda>(taken, original_slug, s, counter).
         2 * card {k. counter \<le> k \<and> suffixed original_slug k \<in> set taken}
         + (if s \<in> set taken then 1 else 0)))"
    by simp
next
  fix taken :: "string list" and original_slug s :: string and counter :: nat
  assume "s \<in> set taken"
  let ?A = "{k. counter \<le> k \<and> suffixed original_slug k \<in> set taken}"
  let ?B = "{k. counter + 1 \<le> k \<and> suffixed original_slug k \<in> set taken}"
  have fin: "finite ?A"
    by (rule finite_subset [OF _ finite_suffixes [of original_slug taken]]) auto
  have split: "?A = (if suffixed original_slug counter \<in> set taken then insert counter ?B else ?B)"
    by (auto simp: le_Suc_eq Suc_le_eq less_le)
  have finB: "finite {k. Suc counter \<le> k \<and> suffixed original_slug k \<in> set taken}"
    by (rule finite_subset [OF _ fin]) auto
  have "card ?A = (if suffixed original_slug counter \<in> set taken then Suc (card ?B) else card ?B)"
    by (subst split) (simp add: finB)
  with \<open>s \<in> set taken\<close>
  show "((taken, original_slug, suffixed original_slug counter, counter + 1),
         (taken, original_slug, s, counter))
        \<in> measure (\<lambda>(taken, original_slug, s, counter).
         2 * card {k. counter \<le> k \<and> suffixed original_slug k \<in> set taken}
         + (if s \<in> set taken then 1 else 0))"
    by simp
qed

declare unique_slug.simps [simp del]

section \<open>Requests\<close>

text \<open>
  A JSON body is a record of the keys the handler reads, \<open>None\<close> for an absent key, and a
  flag for keys the handler never reads (\<^verbatim>\<open>not data\<close> is true of an empty object only).
  The body as a whole is \<open>None\<close> when \<^verbatim>\<open>request.get_json()\<close> yields nothing. Values
  have the JSON type the handler expects: strings for text, a boolean for
  \<^verbatim>\<open>is_published\<close>.

  A caller either presents a valid access token, and \<open>bearer\<close> is \<open>Some uid\<close> with the
  token's identity, or sends no \<^verbatim>\<open>Authorization\<close> header, and \<open>bearer\<close> is \<open>None\<close>, which
  \<^verbatim>\<open>@jwt_required()\<close> answers itself with 401. A header whose token fails verification
  (expired, malformed) is a third kind of request, which the decorator also refuses, with
  401 or 422; it has no value in this type. Every \<^verbatim>\<open>datetime.utcnow()\<close> of one request
  reads the same \<open>now\<close>, and \<open>new_id\<close> is the \<^verbatim>\<open>uuid4()\<close> drawn for the new row.
\<close>

record post_data =
  data_title :: "string option"
  data_content :: "string option"
  data_excerpt :: "string option"
  data_is_published :: "bool option"
  data_slug :: "string option"
  data_other :: bool

record tag_data =
  tdata_name :: "string option"
  tdata_slug :: "string option"
  tdata_description :: "string option"

record comment_data =
  cdata_content :: "string option"
  cdata_author_name :: "string option"
  cdata_author_email :: "string option"

record register_data =
  rdata_username :: "string option"
  rdata_email :: "string option"
  rdata_password :: "string option"
  rdata_first_name :: "string option"
  rdata_last_name :: "string option"
  rdata_other :: bool

definition post_data_empty :: "post_data \<Rightarrow> bool" where
  "post_data_empty d =
     (data_title d = None \<and> data_content d = None \<and> data_excerpt d = None \<and>
      data_is_published d = None \<and> data_slug d = None \<and> \<not> data_other d)"

definition register_data_empty :: "register_data \<Rightarrow> bool" where
  "register_data_empty d =
     (rdata_username d = None \<and> rdata_email d = None \<and> rdata_password d = None \<and>
      rdata_first_name d = None \<and> rdata_last_name d = None \<and> \<not> rdata_other d)"

text \<open>\<^verbatim>\<open>data.get(key, '')\<close>.\<close>

definition get_or_empty :: "string option \<Rightarrow> string" where
  "get_or_empty v = (case v of None \<Rightarrow> [] | Some s \<Rightarrow> s)"

text \<open>
  The answers the framework gives by itself: the 401 of \<^verbatim>\<open>@jwt_required()\<close> for a
  request without an \<^verbatim>\<open>Authorization\<close> header, the 404 of \<^verbatim>\<open>get_or_404\<close>, and the 500
  of an exception that no handler catches.
\<close>

definition unauthorized :: response where
  "unauthorized = Response 401 (ErrorBody ''Missing Authorization Header'')"

definition not_found :: response where
  "not_found = Response 404 (ErrorBody ''Not found'')"

definition internal_error :: response where
  "internal_error = Response 500 (ErrorBody ''Internal server error'')"

section \<open>Post routes (app/api/routes.py)\<close>

text \<open>
  \<^verbatim>\<open>db.session.add(post); db.session.commit()\<close> succeeds when the primary key and the
  unique \<^verbatim>\<open>slug\<close> column admit the row; otherwise the handler's \<^verbatim>\<open>except\<close> branch rolls
  back and answers 500.
\<close>

definition post_insertable :: "db \<Rightarrow> post \<Rightarrow> bool" where
  "post_insertable d p =
     (post_id p \<notin> set (map post_id (posts d)) \<and> post_slug p \<notin> set (map post_slug (posts d)))"

definition create_post ::
  "db \<Rightarrow> datetime \<Rightarrow> uuid \<Rightarrow> uuid option \<Rightarrow> post_data option \<Rightarrow> response \<times> db" where
  "create_post d now new_id bearer data =
     (case bearer of
        None \<Rightarrow> (unauthorized, d)
      | Some current_user_id \<Rightarrow>
          (case data of
             None \<Rightarrow> (Response 400 (ErrorBody ''No data provided''), d)
           | Some dat \<Rightarrow>
               if post_data_empty dat then (Response 400 (ErrorBody ''No data provided''), d)
               else
                 (case data_title dat of
                    None \<Rightarrow> (Response 400 (ErrorBody ''title is required''), d)
                  | Some t \<Rightarrow>
                      if t = [] then (Response 400 (ErrorBody ''title is required''), d)
                      else
                        (case data_content dat of
                           None \<Rightarrow> (Response 400 (ErrorBody ''content is required''), d)
                         | Some c \<Rightarrow>
                             if c = [] then (Response 400 (ErrorBody ''content is required''), d)
                             else
                               (let original_slug = candidate (data_slug dat) t;
                                    s = unique_slug (map post_slug (posts d)) original_slug original_slug 1;
                                    pub = (case data_is_published dat of None \<Rightarrow> False | Some b \<Rightarrow> b);
                                    p = \<lparr>post_id = new_id, title = t, post_content = c,
                                         excerpt = get_or_empty (data_excerpt dat), post_slug = s,
                                         is_published = pub,
                                         published_at = (if pub then Some now else None),
                                         post_created_at = now, post_updated_at = now,
                                         post_user_id = current_user_id\<rparr>
                                in if post_insertable d p
                                   then (Response 201 (MessagePost ''Post created successfully'' p),
                                         d\<lparr>posts := posts d @ [p]\<rparr>)
                                   else (Response 500 (ErrorBody ''Failed to create post''), d))))))"

text \<open>
  Lines 120-123 and 160-163:
  \<^verbatim>\<open>if post.user_id != current_user_id and not user.is_admin\<close>.
  The condition reads \<^verbatim>\<open>user.is_admin\<close> only for a caller who is not the owner; when the
  token names no user row, that read raises and the result here is \<open>None\<close>.
\<close>

definition permission_denied :: "post \<Rightarrow> uuid \<Rightarrow> user option \<Rightarrow> bool option" where
  "permission_denied p current_user_id u =
     (if post_user_id p \<noteq> current_user_id
      then (case u of None \<Rightarrow> None | Some usr \<Rightarrow> Some (\<not> is_admin usr))
      else Some False)"

text \<open>Lines 129-141 of \<^verbatim>\<open>update_post\<close>: the field updates on the loaded row.\<close>

definition update_fields :: "post \<Rightarrow> post_data \<Rightarrow> datetime \<Rightarrow> post" where
  "update_fields p dat now =
     (let p1 = (case data_title dat of None \<Rightarrow> p | Some t \<Rightarrow> p\<lparr>title := t\<rparr>);
          p2 = (case data_content dat of None \<Rightarrow> p1 | Some c \<Rightarrow> p1\<lparr>post_content := c\<rparr>);
          p3 = (case data_excerpt dat of None \<Rightarrow> p2 | Some e \<Rightarrow> p2\<lparr>excerpt := e\<rparr>);
          p4 = (case data_is_published dat of
                  None \<Rightarrow> p3
                | Some b \<Rightarrow>
                    if b \<and> published_at p3 = None
                    then p3\<lparr>is_published := b, published_at := Some now\<rparr>
                    else p3\<lparr>is_published := b\<rparr>)
      in p4\<lparr>post_updated_at := now\<rparr>)"

definition store_post :: "db \<Rightarrow> post \<Rightarrow> db" where
  "store_post d p = d\<lparr>posts := map (\<lambda>q. if post_id q = post_id p then p else q) (posts d)\<rparr>"

definition update_post ::
  "db \<Rightarrow> datetime \<Rightarrow> uuid option \<Rightarrow> uuid \<Rightarrow> post_data option \<Rightarrow> response \<times> db" where
  "update_post d now bearer pid data =
     (case bearer of
        None \<Rightarrow> (unauthorized, d)
      | Some current_user_id \<Rightarrow>
          (case get_post_row d pid of
             None \<Rightarrow> (not_found, d)
           | Some p \<Rightarrow>
               (case permission_denied p current_user_id (get_user d current_user_id) of
                  None \<Rightarrow> (internal_error, d)
                | Some True \<Rightarrow> (Response 403 (ErrorBody ''Permission denied''), d)
                | Some False \<Rightarrow>
                    (case data of
                       None \<Rightarrow> (Response 400 (ErrorBody ''No data provided''), d)
                     | Some dat \<Rightarrow>
                         if post_data_empty dat
                         then (Response 400 (ErrorBody ''No data provided''), d)
                         else
                           (let p' = update_fields p dat now
                            in (Response 200 (MessagePost ''Post updated successfully'' p'),
                                store_post d p'))))))"

text \<open>
  \<^verbatim>\<open>db.session.delete(post)\<close> removes the row, its comments (the relationship cascades)
  and its rows of the association table.
\<close>

definition remove_post :: "db \<Rightarrow> uuid \<Rightarrow> db" where
  "remove_post d pid =
     d\<lparr>posts := filter (\<lambda>q. post_id q \<noteq> pid) (posts d),
       comments := filter (\<lambda>c. comment_post_id c \<noteq> pid) (comments d),
       post_tags := filter (\<lambda>pt. fst pt \<noteq> pid) (post_tags d)\<rparr>"

definition delete_post :: "db \<Rightarrow> uuid option \<Rightarrow> uuid \<Rightarrow> response \<times> db" where
  "delete_post d bearer pid =
     (case bearer of
        None \<Rightarrow> (unauthorized, d)
      | Some current_user_id \<Rightarrow>
          (case get_post_row d pid of
             None \<Rightarrow> (not_found, d)
           | Some p \<Rightarrow>
               (case permission_denied p current_user_id (get_user d current_user_id) of
                  None \<Rightarrow> (internal_error, d)
                | Some True \<Rightarrow> (Response 403 (ErrorBody ''Permission denied''), d)
                | Some False \<Rightarrow>
                    (Response 200 (MessageBody ''Post deleted successfully''), remove_post d pid))))"

section \<open>Listing and pagination\<close>

text \<open>
  \<^verbatim>\<open>request.args.get('page', 1, type=int)\<close> gives the default when the argument is
  absent or is no integer, so a query argument is an \<open>int option\<close>.
\<close>

definition arg_or :: "int \<Rightarrow> int option \<Rightarrow> int" where
  "arg_or dflt v = (case v of None \<Rightarrow> dflt | Some n \<Rightarrow> n)"

text \<open>
  \<^verbatim>\<open>query.paginate(page=page, per_page=per_page, error_out=False)\<close> of Flask-SQLAlchemy:
  with \<^verbatim>\<open>error_out=False\<close> a page below 1 becomes 1 and a page size below 1 becomes 20;
  the items are \<^verbatim>\<open>limit(per_page).offset((page - 1) * per_page)\<close>; \<^verbatim>\<open>total\<close> counts
  the rows of the query and \<^verbatim>\<open>pages\<close> is 0 for no rows and the rounded-up quotient of
  \<^verbatim>\<open>total\<close> by \<^verbatim>\<open>per_page\<close> otherwise. The result is (items, total, pages).

  The limit and the offset are bound as integers of the query. On SQLite, the engine of
  the repository's tests, a bound integer beyond the signed 64-bit range raises
  \<^verbatim>\<open>OverflowError\<close>; the result is then \<open>None\<close>, and since no listing handler catches
  the exception the request ends in the framework's 500.
\<close>

definition int64_max :: int where
  "int64_max = 9223372036854775807"

definition bindable :: "int \<Rightarrow> int \<Rightarrow> bool" where
  "bindable page per_page = (per_page \<le> int64_max \<and> (page - 1) * per_page \<le> int64_max)"

definition page_count :: "nat \<Rightarrow> int \<Rightarrow> nat" where
  "page_count n_total per_page =
     (if n_total = 0 then 0 else nat ((int n_total + per_page - 1) div per_page))"

definition paginate :: "'a list \<Rightarrow> int \<Rightarrow> int \<Rightarrow> ('a list \<times> nat \<times> nat) option" where
  "paginate rows page per_page =
     (let pg = (if page < 1 then 1 else page);
          pp = (if per_page < 1 then 20 else per_page)
      in if bindable pg pp
         then Some (take (nat pp) (drop (nat ((pg - 1) * pp)) rows),
                    length rows,
                    page_count (length rows) pp)
         else None)"

text \<open>
  \<^verbatim>\<open>order_by(column.desc())\<close>: newest first. The sort is stable, so rows with equal
  timestamps stay in table order. A query without \<^verbatim>\<open>order_by\<close> yields table order.
\<close>

definition order_by_desc :: "('a \<Rightarrow> datetime) \<Rightarrow> 'a list \<Rightarrow> 'a list" where
  "order_by_desc col rows = sort_key (\<lambda>r. - col r) rows"


text \<open>
  \<^verbatim>\<open>GET /api/v1/posts\<close>, lines 28-54. Lines 33-46 build the query, whose rows in order
  are \<open>posts_listing\<close>; lines 46-54 take the page.
\<close>

definition posts_listing :: "db \<Rightarrow> string option \<Rightarrow> string option \<Rightarrow> post list" where
  "posts_listing d arg_published_only arg_tag =
     (let published_only =
            (lower (case arg_published_only of None \<Rightarrow> ''true'' | Some v \<Rightarrow> v) = ''true'');
          q1 = (if published_only then filter is_published (posts d) else posts d);
          q2 = (case arg_tag of
                  None \<Rightarrow> q1
                | Some ts \<Rightarrow>
                    if ts = [] then q1
                    else (case find (\<lambda>t. tag_slug t = ts) (tags d) of
                            None \<Rightarrow> q1
                          | Some t \<Rightarrow>
                              filter (\<lambda>p. (post_id p, tag_id t) \<in> set (post_tags d)) q1))
      in order_by_desc post_created_at q2)"

definition get_posts ::
  "db \<Rightarrow> int option \<Rightarrow> int option \<Rightarrow> string option \<Rightarrow> string option \<Rightarrow> response" where
  "get_posts d arg_page arg_per_page arg_published_only arg_tag =
     (let page = arg_or 1 arg_page;
          per_page = arg_or 10 arg_per_page
      in case paginate (posts_listing d arg_published_only arg_tag) page per_page of
           None \<Rightarrow> internal_error
         | Some (items, n_total, n_pages) \<Rightarrow>
             Response 200 (PostPage items n_total n_pages page))"



text \<open>
  \<^verbatim>\<open>GET /posts/<slug>\<close> of app/main/routes.py, lines 44-51. The route has no token
  decorator; \<open>bearer\<close> is whatever the caller presents and the handler never reads it.
\<close>

definition main_get_post :: "db \<Rightarrow> uuid option \<Rightarrow> string \<Rightarrow> response" where
  "main_get_post d bearer s =
     (case find (\<lambda>p. post_slug p = s \<and> is_published p) (posts d) of
        None \<Rightarrow> Response 404 (ErrorBody ''Post not found'')
      | Some p \<Rightarrow> Response 200 (PostBody p))"

text \<open>
  \<^verbatim>\<open>GET /tags/<slug>\<close> of app/main/routes.py, lines 59-79. \<^verbatim>\<open>Tag.posts\<close> is the
  backref of \<^verbatim>\<open>Post.tags\<close> (models.py line 72); \<^verbatim>\<open>lazy='dynamic'\<close> there configures
  \<^verbatim>\<open>Post.tags\<close> only, so \<^verbatim>\<open>tag.posts\<close> is a plain list and
  \<^verbatim>\<open>tag.posts.filter_by\<close> on line 69 raises \<^verbatim>\<open>AttributeError\<close>: for an existing tag
  the route ends in the framework's 500 before it paginates.
\<close>

definition get_posts_by_tag :: "db \<Rightarrow> string \<Rightarrow> int option \<Rightarrow> int option \<Rightarrow> response" where
  "get_posts_by_tag d s arg_page arg_per_page =
     (case find (\<lambda>t. tag_slug t = s) (tags d) of
        None \<Rightarrow> Response 404 (ErrorBody ''Tag not found'')
      | Some t \<Rightarrow> internal_error)"

text \<open>\<^verbatim>\<open>GET /api/v1/tags\<close> and \<^verbatim>\<open>GET /tags\<close>: \<^verbatim>\<open>Tag.query.all()\<close>.\<close>

definition get_tags :: "db \<Rightarrow> response" where
  "get_tags d = Response 200 (TagList (tags d))"

section \<open>Tag creation (app/api/routes.py, lines 180-214)\<close>

definition tag_insertable :: "db \<Rightarrow> tag \<Rightarrow> bool" where
  "tag_insertable d t =
     (tag_id t \<notin> set (map tag_id (tags d)) \<and> tag_name t \<notin> set (map tag_name (tags d)) \<and>
      tag_slug t \<notin> set (map tag_slug (tags d)))"

definition create_tag ::
  "db \<Rightarrow> datetime \<Rightarrow> uuid \<Rightarrow> uuid option \<Rightarrow> tag_data option \<Rightarrow> response \<times> db" where
  "create_tag d now new_id bearer data =
     (case bearer of
        None \<Rightarrow> (unauthorized, d)
      | Some current_user_id \<Rightarrow>
          (case data of
             None \<Rightarrow> (Response 400 (ErrorBody ''Tag name is required''), d)
           | Some dat \<Rightarrow>
               (case tdata_name dat of
                  None \<Rightarrow> (Response 400 (ErrorBody ''Tag name is required''), d)
                | Some n \<Rightarrow>
                    if find (\<lambda>t. tag_name t = n) (tags d) \<noteq> None
                    then (Response 400 (ErrorBody ''Tag already exists''), d)
                    else
                      (let t = \<lparr>tag_id = new_id, tag_name = n,
                                tag_slug = candidate (tdata_slug dat) n,
                                description = get_or_empty (tdata_description dat),
                                tag_created_at = now\<rparr>
                       in if tag_insertable d t
                          then (Response 201 (MessageTag ''Tag created successfully'' t),
                                d\<lparr>tags := tags d @ [t]\<rparr>)
                          else (Response 500 (ErrorBody ''Failed to create tag''), d)))))"

section \<open>Comment routes (app/api/routes.py)\<close>

text \<open>\<^verbatim>\<open>GET /api/v1/posts/<post_id>/comments\<close>, lines 217-222. The query arguments of the
  request are passed along; the handler reads none of them.\<close>

definition get_post_comments :: "db \<Rightarrow> uuid \<Rightarrow> int option \<Rightarrow> int option \<Rightarrow> response" where
  "get_post_comments d pid arg_page arg_per_page =
     (case get_post_row d pid of
        None \<Rightarrow> not_found
      | Some p \<Rightarrow>
          Response 200
            (CommentList (filter (\<lambda>c. comment_post_id c = pid \<and> is_approved c) (comments d))))"

text \<open>
  flask_jwt_extended keeps the verified token in the request context, and only
  \<^verbatim>\<open>@jwt_required()\<close> (or \<^verbatim>\<open>verify_jwt_in_request()\<close>) puts it there.
  \<^verbatim>\<open>get_jwt_identity()\<close> reads the context: on a context without a verified token it
  raises \<^verbatim>\<open>RuntimeError\<close> (\<open>None\<close> here), whatever the request's headers hold.
\<close>

datatype jwt_context = Unverified | Verified uuid

fun get_jwt_identity :: "jwt_context \<Rightarrow> uuid option" where
  "get_jwt_identity Unverified = None"
| "get_jwt_identity (Verified uid) = Some uid"

definition comment_insertable :: "db \<Rightarrow> comment \<Rightarrow> bool" where
  "comment_insertable d c = (comment_id c \<notin> set (map comment_id (comments d)))"

text \<open>
  \<^verbatim>\<open>POST /api/v1/posts/<post_id>/comments\<close>, lines 224-260. The route carries no
  \<^verbatim>\<open>@jwt_required\<close>, so its context is \<open>Unverified\<close>; the bare \<^verbatim>\<open>except\<close> turns the
  raise of \<^verbatim>\<open>get_jwt_identity()\<close> into an anonymous comment.
\<close>

definition create_comment ::
  "db \<Rightarrow> datetime \<Rightarrow> uuid \<Rightarrow> uuid option \<Rightarrow> uuid \<Rightarrow> comment_data option \<Rightarrow> response \<times> db" where
  "create_comment d now new_id bearer pid data =
     (case get_post_row d pid of
        None \<Rightarrow> (not_found, d)
      | Some p \<Rightarrow>
          (case data of
             None \<Rightarrow> (Response 400 (ErrorBody ''Comment content is required''), d)
           | Some dat \<Rightarrow>
               (case cdata_content dat of
                  None \<Rightarrow> (Response 400 (ErrorBody ''Comment content is required''), d)
                | Some txt \<Rightarrow>
                    (let c0 = \<lparr>comment_id = new_id, comment_content = txt, is_approved = False,
                               author_name = get_or_empty (cdata_author_name dat),
                               author_email = get_or_empty (cdata_author_email dat),
                               comment_created_at = now, comment_post_id = pid,
                               comment_user_id = None\<rparr>;
                         c = (case get_jwt_identity Unverified of
                                None \<Rightarrow> c0
                              | Some current_user_id \<Rightarrow>
                                  if current_user_id \<noteq> []
                                  then c0\<lparr>comment_user_id := Some current_user_id\<rparr>
                                  else c0)
                     in if comment_insertable d c
                        then (Response 201 (MessageComment ''Comment created successfully'' c),
                              d\<lparr>comments := comments d @ [c]\<rparr>)
                        else (Response 500 (ErrorBody ''Failed to create comment''), d)))))"

section \<open>Admin routes (app/api/routes.py)\<close>

text \<open>
  The decorator \<^verbatim>\<open>admin_required\<close>, lines 12-25: \<open>None\<close> lets the wrapped handler run,
  \<open>Some r\<close> is the decorator's own answer.
\<close>

definition admin_required :: "db \<Rightarrow> uuid option \<Rightarrow> response option" where
  "admin_required d bearer =
     (case bearer of
        None \<Rightarrow> Some unauthorized
      | Some current_user_id \<Rightarrow>
          (case get_user d current_user_id of
             None \<Rightarrow> Some (Response 403 (ErrorBody ''Admin privileges required''))
           | Some u \<Rightarrow>
               if \<not> is_admin u then Some (Response 403 (ErrorBody ''Admin privileges required''))
               else None))"


text \<open>Lines 285-291 of \<^verbatim>\<open>get_all_comments\<close> build the query, whose rows in order are
  \<open>comments_listing\<close>.\<close>

definition comments_listing :: "db \<Rightarrow> string option \<Rightarrow> comment list" where
  "comments_listing d arg_approved_only =
     (let approved_only =
            (lower (case arg_approved_only of None \<Rightarrow> ''false'' | Some v \<Rightarrow> v) = ''true'');
          q = (if approved_only then filter is_approved (comments d) else comments d)
      in order_by_desc comment_created_at q)"

definition get_all_comments ::
  "db \<Rightarrow> uuid option \<Rightarrow> int option \<Rightarrow> int option \<Rightarrow> string option \<Rightarrow> response" where
  "get_all_comments d bearer arg_page arg_per_page arg_approved_only =
     (case admin_required d bearer of
        Some r \<Rightarrow> r
      | None \<Rightarrow>
          (let page = arg_or 1 arg_page;
               per_page = arg_or 20 arg_per_page
           in case paginate (comments_listing d arg_approved_only) page per_page of
                None \<Rightarrow> internal_error
              | Some (items, n_total, n_pages) \<Rightarrow>
                  Response 200 (CommentPage items n_total n_pages page)))"

definition store_comment :: "db \<Rightarrow> comment \<Rightarrow> db" where
  "store_comment d c =
     d\<lparr>comments := map (\<lambda>x. if comment_id x = comment_id c then c else x) (comments d)\<rparr>"

definition approve_comment :: "db \<Rightarrow> uuid option \<Rightarrow> uuid \<Rightarrow> response \<times> db" where
  "approve_comment d bearer cid =
     (case admin_required d bearer of
        Some r \<Rightarrow> (r, d)
      | None \<Rightarrow>
          (case get_comment d cid of
             None \<Rightarrow> (not_found, d)
           | Some c \<Rightarrow>
               (Response 200 (MessageBody ''Comment approved successfully''),
                store_comment d (c\<lparr>is_approved := True\<rparr>))))"

section \<open>Registration (app/auth/routes.py)\<close>

text \<open>
  \<^verbatim>\<open>validate_email\<close>, lines 18-21: \<^verbatim>\<open>re.match\<close> of
  \<^verbatim>\<open>^[a-zA-Z0-9._%+-]+@[a-zA-Z0-9.-]+\.[a-zA-Z]{2,}$\<close>. The local part is the longest
  prefix of local characters and must end at an at-sign; the top-level domain is the run
  of letters after the last dot; \<^verbatim>\<open>$\<close> also matches before one final newline. The
  classes \<^verbatim>\<open>[a-zA-Z]\<close> and \<^verbatim>\<open>[a-zA-Z0-9]\<close> of the pattern hold ASCII characters only.
\<close>

definition ascii_letter :: "char \<Rightarrow> bool" where
  "ascii_letter c =
     (let n = (of_char c :: nat) in (65 \<le> n \<and> n \<le> 90) \<or> (97 \<le> n \<and> n \<le> 122))"

definition ascii_alnum :: "char \<Rightarrow> bool" where
  "ascii_alnum c =
     (let n = (of_char c :: nat)
      in (48 \<le> n \<and> n \<le> 57) \<or> (65 \<le> n \<and> n \<le> 90) \<or> (97 \<le> n \<and> n \<le> 122))"

definition local_char :: "char \<Rightarrow> bool" where
  "local_char c = (ascii_alnum c \<or> c \<in> set ''._%+-'')"

definition domain_char :: "char \<Rightarrow> bool" where
  "domain_char c = (ascii_alnum c \<or> c \<in> set ''.-'')"

definition domain_ok :: "string \<Rightarrow> bool" where
  "domain_ok r =
     (let r' = (if r \<noteq> [] \<and> last r = CHR 0x0A then butlast r else r);
          tld = takeWhile ascii_letter (rev r');
          before = dropWhile ascii_letter (rev r')
      in 2 \<le> length tld \<and>
         (case before of
            [] \<Rightarrow> False
          | c # host \<Rightarrow> c = CHR ''.'' \<and> host \<noteq> [] \<and> list_all domain_char host))"

definition validate_email :: "string \<Rightarrow> bool" where
  "validate_email e =
     (takeWhile local_char e \<noteq> [] \<and>
      (case dropWhile local_char e of
         [] \<Rightarrow> False
       | c # r \<Rightarrow> c = CHR ''@'' \<and> domain_ok r))"

definition user_insertable :: "db \<Rightarrow> user \<Rightarrow> bool" where
  "user_insertable d u =
     (user_id u \<notin> set (map user_id (users d)) \<and> username u \<notin> set (map username (users d)) \<and>
      email u \<notin> set (map email (users d)))"

text \<open>
  \<^verbatim>\<open>POST /auth/register\<close>, lines 23-74. \<open>generate_password_hash\<close> is werkzeug's salted
  hash, a parameter here.
\<close>

definition register ::
  "(string \<Rightarrow> string) \<Rightarrow> db \<Rightarrow> datetime \<Rightarrow> uuid \<Rightarrow> register_data option \<Rightarrow> response \<times> db" where
  "register generate_password_hash d now new_id data =
     (case data of
        None \<Rightarrow> (Response 400 (ErrorBody ''No data provided''), d)
      | Some dat \<Rightarrow>
          if register_data_empty dat then (Response 400 (ErrorBody ''No data provided''), d)
          else if get_or_empty (rdata_username dat) = []
            then (Response 400 (ErrorBody ''username is required''), d)
          else if get_or_empty (rdata_email dat) = []
            then (Response 400 (ErrorBody ''email is required''), d)
          else if get_or_empty (rdata_password dat) = []
            then (Response 400 (ErrorBody ''password is required''), d)
          else if \<not> validate_email (get_or_empty (rdata_email dat))
            then (Response 400 (ErrorBody ''Invalid email format''), d)
          else if find (\<lambda>u. username u = get_or_empty (rdata_username dat)) (users d) \<noteq> None
            then (Response 400 (ErrorBody ''Username already exists''), d)
          else if find (\<lambda>u. email u = get_or_empty (rdata_email dat)) (users d) \<noteq> None
            then (Response 400 (ErrorBody ''Email already exists''), d)
          else
            (let u = \<lparr>user_id = new_id,
                      username = get_or_empty (rdata_username dat),
                      email = get_or_empty (rdata_email dat),
                      password_hash = generate_password_hash (get_or_empty (rdata_password dat)),
                      first_name = get_or_empty (rdata_first_name dat),
                      last_name = get_or_empty (rdata_last_name dat),
                      is_active = True, is_admin = False,
                      user_created_at = now, user_updated_at = now, last_login = None\<rparr>
             in if user_insertable d u
                then (Response 201 (MessageUser ''User registered successfully'' u),
                      d\<lparr>users := users d @ [u]\<rparr>)
                else (Response 500 (ErrorBody ''Failed to register user''), d)))"

section \<open>Runs of requests, and the candidate as specified\<close>

text \<open>
  A run of \<^verbatim>\<open>PUT /api/v1/posts/<id>\<close> requests on one post, each with its clock
  reading, its caller and its body; \<open>post_after\<close> is the post's row after the run.
\<close>

type_synonym put_request = "datetime \<times> uuid option \<times> post_data option"

definition put_all :: "db \<Rightarrow> uuid \<Rightarrow> put_request list \<Rightarrow> db" where
  "put_all d pid rs =
     foldl (\<lambda>s (now, bearer, data). snd (update_post s now bearer pid data)) d rs"

definition post_after :: "db \<Rightarrow> uuid \<Rightarrow> put_request list \<Rightarrow> post option" where
  "post_after d pid rs = get_post_row (put_all d pid rs) pid"

text \<open>
  The slugs the uniqueness loop tries, in order: the bare candidate, then the candidate
  with \<^verbatim>\<open>-1\<close>, \<^verbatim>\<open>-2\<close>, ... appended.
\<close>

definition collision_slug :: "string \<Rightarrow> nat \<Rightarrow> string" where
  "collision_slug c k = (if k = 0 then c else suffixed c k)"

text \<open>
  The candidate in the words of the specification: the caller's slug if one is supplied
  (an empty one counts as none), else the lower-cased title with spaces and underscores
  turned into hyphens; then only alphanumeric characters and hyphens are kept, and the
  hyphens at both ends are trimmed.
\<close>

fun trim_leading_hyphens :: "string \<Rightarrow> string" where
  "trim_leading_hyphens [] = []"
| "trim_leading_hyphens (c # cs) = (if c = CHR ''-'' then trim_leading_hyphens cs else c # cs)"

definition spec_candidate :: "string option \<Rightarrow> string \<Rightarrow> string" where
  "spec_candidate supplied t =
     (let from_title =
            map (\<lambda>c. if c = CHR '' '' \<or> c = CHR ''_'' then CHR ''-'' else c) (lower t);
          seed = (case supplied of
                    None \<Rightarrow> from_title
                  | Some [] \<Rightarrow> from_title
                  | Some (c # cs) \<Rightarrow> c # cs);
          kept = filter (\<lambda>c. isalnum c \<or> c = CHR ''-'') seed
      in rev (trim_leading_hyphens (rev (trim_leading_hyphens kept))))"

text \<open>A run of \<^verbatim>\<open>POST /api/v1/posts\<close> requests, each with its clock reading, its fresh
  id, its caller and its body, and the responses in order.\<close>

type_synonym post_request = "datetime \<times> uuid \<times> uuid option \<times> post_data option"

fun create_posts :: "db \<Rightarrow> post_request list \<Rightarrow> response list \<times> db" where
  "create_posts d [] = ([], d)"
| "create_posts d ((now, new_id, bearer, data) # rs) =
     (case create_post d now new_id bearer data of
        (r, d') \<Rightarrow> (case create_posts d' rs of (out, d'') \<Rightarrow> (r # out, d'')))"

fun request_candidate :: "post_request \<Rightarrow> string option" where
  "request_candidate (now, new_id, bearer, data) =
     (case data of
        None \<Rightarrow> None
      | Some dat \<Rightarrow>
          (case data_title dat of None \<Rightarrow> None | Some t \<Rightarrow> Some (candidate (data_slug dat) t)))"

fun created_slug :: "response \<Rightarrow> string option" where
  "created_slug (Response n (MessagePost m p)) = (if n = 201 then Some (post_slug p) else None)"
| "created_slug (Response n b) = None"

section \<open>Example rows and requests\<close>

definition alice :: user where
  "alice = \<lparr>user_id = ''u1'', username = ''alice'', email = ''alice@x.com'',
     password_hash = ''h1'', first_name = ''Alice'', last_name = [], is_active = True,
     is_admin = False, user_created_at = 1, user_updated_at = 1, last_login = None\<rparr>"

definition bob :: user where
  "bob = \<lparr>user_id = ''u2'', username = ''bob'', email = ''bob@x.com'',
     password_hash = ''h2'', first_name = ''Bob'', last_name = [], is_active = True,
     is_admin = False, user_created_at = 1, user_updated_at = 1, last_login = None\<rparr>"

definition carol :: user where
  "carol = \<lparr>user_id = ''u3'', username = ''carol'', email = ''carol@x.com'',
     password_hash = ''h3'', first_name = ''Carol'', last_name = [], is_active = True,
     is_admin = True, user_created_at = 1, user_updated_at = 1, last_login = None\<rparr>"

definition draft_post :: post where
  "draft_post = \<lparr>post_id = ''p1'', title = ''Draft'', post_content = ''text'', excerpt = [],
     post_slug = ''draft'', is_published = False, published_at = None,
     post_created_at = 1, post_updated_at = 1, post_user_id = ''u1''\<rparr>"

definition live_post :: post where
  "live_post = \<lparr>post_id = ''p2'', title = ''Live'', post_content = ''text'', excerpt = [],
     post_slug = ''live'', is_published = True, published_at = Some 2,
     post_created_at = 2, post_updated_at = 2, post_user_id = ''u1''\<rparr>"

definition older_comment :: comment where
  "older_comment = \<lparr>comment_id = ''c1'', comment_content = ''first'', is_approved = True,
     author_name = ''Ann'', author_email = ''ann@x.com'', comment_created_at = 3,
     comment_post_id = ''p2'', comment_user_id = None\<rparr>"

definition newer_comment :: comment where
  "newer_comment = \<lparr>comment_id = ''c2'', comment_content = ''second'', is_approved = True,
     author_name = [], author_email = [], comment_created_at = 4,
     comment_post_id = ''p2'', comment_user_id = Some ''u2''\<rparr>"

definition pending_comment :: comment where
  "pending_comment = \<lparr>comment_id = ''c3'', comment_content = ''third'', is_approved = False,
     author_name = ''Zed'', author_email = [], comment_created_at = 5,
     comment_post_id = ''p1'', comment_user_id = None\<rparr>"

definition hello_tag :: tag where
  "hello_tag = \<lparr>tag_id = ''t1'', tag_name = ''Hello World'', tag_slug = ''hello-world'',
     description = [], tag_created_at = 1\<rparr>"

definition blog_db :: db where
  "blog_db = \<lparr>users = [alice, bob, carol], posts = [draft_post, live_post],
     tags = [hello_tag], comments = [older_comment, newer_comment, pending_comment],
     post_tags = []\<rparr>"

definition empty_db :: db where
  "empty_db = \<lparr>users = [], posts = [], tags = [], comments = [], post_tags = []\<rparr>"

definition retitle :: post_data where
  "retitle = \<lparr>data_title = Some ''Changed'', data_content = None, data_excerpt = None,
     data_is_published = None, data_slug = None, data_other = False\<rparr>"

definition alice_again :: register_data where
  "alice_again = \<lparr>rdata_username = Some ''alice'', rdata_email = Some ''other@x.com'',
     rdata_password = Some ''pw123'', rdata_first_name = None, rdata_last_name = None,
     rdata_other = False\<rparr>"

definition bob_mail_again :: register_data where
  "bob_mail_again = \<lparr>rdata_username = Some ''robert'', rdata_email = Some ''bob@x.com'',
     rdata_password = Some ''pw123'', rdata_first_name = None, rdata_last_name = None,
     rdata_other = False\<rparr>"

definition hello_draft :: post_data where
  "hello_draft = \<lparr>data_title = Some ''Hello World'', data_content = Some ''text'',
     data_excerpt = None, data_is_published = None, data_slug = None, data_other = False\<rparr>"

definition publish :: post_data where
  "publish = \<lparr>data_title = None, data_content = None, data_excerpt = None,
     data_is_published = Some True, data_slug = None, data_other = False\<rparr>"

definition unpublish :: post_data where
  "unpublish = \<lparr>data_title = None, data_content = None, data_excerpt = None,
     data_is_published = Some False, data_slug = None, data_other = False\<rparr>"

definition hello_post :: post where
  "hello_post = \<lparr>post_id = ''p9'', title = ''Hello World'', post_content = ''text'',
     excerpt = [], post_slug = ''hello-world'', is_published = False, published_at = None,
     post_created_at = 10, post_updated_at = 10, post_user_id = ''u1''\<rparr>"

definition publish_unpublish_publish :: "put_request list" where
  "publish_unpublish_publish =
     [(11, Some ''u1'', Some publish), (12, Some ''u1'', Some unpublish),
      (13, Some ''u2'', Some publish), (14, Some ''u1'', Some publish)]"

definition titled :: "string \<Rightarrow> post_data" where
  "titled t = \<lparr>data_title = Some t, data_content = Some ''text'', data_excerpt = None,
     data_is_published = None, data_slug = None, data_other = False\<rparr>"

definition three_hellos :: "post_request list" where
  "three_hellos =
     [(10, ''p7'', Some ''u1'', Some (titled ''Hello World'')),
      (11, ''p8'', Some ''u2'', Some (titled ''hello_world'')),
      (12, ''p9'', Some ''u1'', Some (titled ''Hello, World!''))]"

definition a1_then_two_a :: "post_request list" where
  "a1_then_two_a =
     [(10, ''p7'', Some ''u1'', Some (titled ''a 1'')),
      (11, ''p8'', Some ''u1'', Some (titled ''a'')),
      (12, ''p9'', Some ''u1'', Some (titled ''a''))]"

text \<open>Titles with accented letters: \<^verbatim>\<open>Caf\<close> followed by U+00E9, a space, U+00C9,
  \<^verbatim>\<open>t\<close> and U+00E9; and the slug Python makes of it.\<close>

definition accented_title :: string where
  "accented_title = ''Caf'' @ [CHR 0xE9] @ '' '' @ [CHR 0xC9] @ ''t'' @ [CHR 0xE9]"

definition accented_slug :: string where
  "accented_slug = ''caf'' @ [CHR 0xE9] @ ''-'' @ [CHR 0xE9] @ ''t'' @ [CHR 0xE9]"

definition two_accented :: "post_request list" where
  "two_accented =
     [(10, ''p7'', Some ''u1'', Some (titled accented_title)),
      (11, ''p8'', Some ''u1'', Some (titled accented_title))]"

definition accented_then_plain :: "post_request list" where
  "accented_then_plain =
     [(10, ''p7'', Some ''u1'', Some (titled (''Caf'' @ [CHR 0xE9]))),
      (11, ''p8'', Some ''u1'', Some (titled ''Caf''))]"

definition lowercase_hello :: tag_data where
  "lowercase_hello = \<lparr>tdata_name = Some ''hello world'', tdata_slug = None,
     tdata_description = None\<rparr>"

definition hi_comment :: comment_data where
  "hi_comment = \<lparr>cdata_content = Some ''hi'', cdata_author_name = None,
     cdata_author_email = None\<rparr>"

lemmas example_rows =
  alice_def bob_def carol_def draft_post_def live_post_def older_comment_def
  newer_comment_def pending_comment_def hello_tag_def blog_db_def empty_db_def

section \<open>General facts about queries\<close>

lemma find_Some_props: "find P xs = Some x \<Longrightarrow> x \<in> set xs \<and> P x"
  by (auto simp: find_Some_iff)

lemma distinct_map_eq: "distinct (map f xs) \<Longrightarrow> x \<in> set xs \<Longrightarrow> y \<in> set xs \<Longrightarrow> f x = f y \<Longrightarrow> x = y"
  by (meson distinct_map inj_onD)

section \<open>The public slug route shows published posts only\<close>

text \<open>
  Claim C10. For every existing post whose \<^verbatim>\<open>is_published\<close> flag is false, the public
  route \<^verbatim>\<open>GET /posts/<slug>\<close> answers 404 at that post's slug, whoever calls (the
  handler never reads the caller's token); a 200 answer always carries a published post
  with the requested slug. The slug column is unique, as the schema declares it.
\<close>

theorem unpublished_post_not_reachable_by_slug:
  "(distinct (map post_slug (posts d)) \<and> p \<in> set (posts d) \<and> \<not> is_published p \<longrightarrow>
      main_get_post d bearer (post_slug p) = Response 404 (ErrorBody ''Post not found''))
   \<and> (main_get_post d bearer s = Response 200 (PostBody q) \<longrightarrow>
        q \<in> set (posts d) \<and> is_published q \<and> post_slug q = s)
   \<and> (status (main_get_post d bearer s) = 200 \<or> status (main_get_post d bearer s) = 404)"
proof -
  have unpublished: "main_get_post d bearer (post_slug p) = Response 404 (ErrorBody ''Post not found'')"
    if a: "distinct (map post_slug (posts d)) \<and> p \<in> set (posts d) \<and> \<not> is_published p"
  proof -
    have "find (\<lambda>q. post_slug q = post_slug p \<and> is_published q) (posts d) = None"
    proof (rule ccontr)
      assume "find (\<lambda>q. post_slug q = post_slug p \<and> is_published q) (posts d) \<noteq> None"
      then obtain q where "find (\<lambda>q. post_slug q = post_slug p \<and> is_published q) (posts d) = Some q"
        by auto
      then have q: "q \<in> set (posts d)" "post_slug q = post_slug p" "is_published q"
        by (auto dest: find_Some_props)
      with a have "q = p"
        by (auto intro: distinct_map_eq [of post_slug "posts d"])
      with q a show False by simp
    qed
    then show ?thesis
      by (simp add: main_get_post_def)
  qed
  have reachable: "q \<in> set (posts d) \<and> is_published q \<and> post_slug q = s"
    if "main_get_post d bearer s = Response 200 (PostBody q)"
  proof -
    from that have "find (\<lambda>p. post_slug p = s \<and> is_published p) (posts d) = Some q"
      by (auto simp: main_get_post_def split: option.splits)
    then show ?thesis
      by (auto dest: find_Some_props)
  qed
  have "status (main_get_post d bearer s) = 200 \<or> status (main_get_post d bearer s) = 404"
    by (simp add: main_get_post_def split: option.splits)
  with unpublished reachable show ?thesis
    by blast
qed

theorem unpublished_post_not_reachable_by_slug_witness:
  "distinct (map post_slug (posts blog_db)) \<and> draft_post \<in> set (posts blog_db)
   \<and> \<not> is_published draft_post
   \<and> main_get_post blog_db (Some ''u1'') ''draft'' = Response 404 (ErrorBody ''Post not found'')
   \<and> main_get_post blog_db None ''live'' = Response 200 (PostBody live_post)
   \<and> live_post \<in> set (posts blog_db) \<and> is_published live_post \<and> post_slug live_post = ''live''"
proof -
  have pre: "distinct (map post_slug (posts blog_db)) \<and> draft_post \<in> set (posts blog_db)
     \<and> \<not> is_published draft_post"
    by (simp add: example_rows)
  have run: "main_get_post blog_db None ''live'' = Response 200 (PostBody live_post)"
    by (simp add: main_get_post_def example_rows)
  from unpublished_post_not_reachable_by_slug
    [of blog_db draft_post "Some ''u1''" "''live''" live_post] pre
  have "main_get_post blog_db (Some ''u1'') (post_slug draft_post) = Response 404 (ErrorBody ''Post not found'')"
    by blast
  moreover from unpublished_post_not_reachable_by_slug
    [of blog_db draft_post None "''live''" live_post] run
  have "live_post \<in> set (posts blog_db) \<and> is_published live_post \<and> post_slug live_post = ''live''"
    by blast
  ultimately show ?thesis using pre run
    by (simp add: draft_post_def)
qed

section \<open>Who may update or delete a post\<close>

text \<open>
  Claim C4. For an authenticated actor (a token whose identity has a user row) and an
  existing post, \<^verbatim>\<open>PUT\<close> and \<^verbatim>\<open>DELETE\<close> on \<^verbatim>\<open>/api/v1/posts/<id>\<close> pass the
  permission check exactly when the actor owns the post or is an admin. A caller who is
  neither gets 403 and the whole database, the post included, is as before; an owner or
  admin deletes the post, and updates it whenever the body is not empty.
\<close>

theorem post_mutation_owner_or_admin:
  assumes actor: "get_user d uid = Some actor" and existing: "get_post_row d pid = Some p"
  shows "((status (fst (update_post d now (Some uid) pid data)) \<noteq> 403)
            = (post_user_id p = uid \<or> is_admin actor))
       \<and> ((status (fst (delete_post d (Some uid) pid)) \<noteq> 403)
            = (post_user_id p = uid \<or> is_admin actor))
       \<and> (\<not> (post_user_id p = uid \<or> is_admin actor) \<longrightarrow>
             update_post d now (Some uid) pid data = (Response 403 (ErrorBody ''Permission denied''), d)
           \<and> delete_post d (Some uid) pid = (Response 403 (ErrorBody ''Permission denied''), d))
       \<and> (post_user_id p = uid \<or> is_admin actor \<longrightarrow>
             delete_post d (Some uid) pid
               = (Response 200 (MessageBody ''Post deleted successfully''), remove_post d pid)
           \<and> (\<forall>dat. data = Some dat \<and> \<not> post_data_empty dat \<longrightarrow>
                 update_post d now (Some uid) pid data
                   = (Response 200 (MessagePost ''Post updated successfully'' (update_fields p dat now)),
                      store_post d (update_fields p dat now))))"
proof (cases "post_user_id p = uid \<or> is_admin actor")
  case True
  then have "permission_denied p uid (Some actor) = Some False"
    by (auto simp: permission_denied_def)
  with True actor existing show ?thesis
    by (auto simp: update_post_def delete_post_def Let_def split: option.splits)
next
  case False
  then have "permission_denied p uid (Some actor) = Some True"
    by (auto simp: permission_denied_def)
  with False actor existing show ?thesis
    by (simp add: update_post_def delete_post_def)
qed

theorem post_mutation_owner_or_admin_witness:
  "get_user blog_db ''u2'' = Some bob \<and> get_user blog_db ''u1'' = Some alice
   \<and> get_user blog_db ''u3'' = Some carol \<and> get_post_row blog_db ''p1'' = Some draft_post
   \<and> update_post blog_db 9 (Some ''u2'') ''p1'' (Some retitle)
       = (Response 403 (ErrorBody ''Permission denied''), blog_db)
   \<and> delete_post blog_db (Some ''u2'') ''p1''
       = (Response 403 (ErrorBody ''Permission denied''), blog_db)
   \<and> update_post blog_db 9 (Some ''u1'') ''p1'' (Some retitle)
       = (Response 200 (MessagePost ''Post updated successfully'' (update_fields draft_post retitle 9)),
          store_post blog_db (update_fields draft_post retitle 9))
   \<and> delete_post blog_db (Some ''u3'') ''p1''
       = (Response 200 (MessageBody ''Post deleted successfully''), remove_post blog_db ''p1'')"
proof -
  have users: "get_user blog_db ''u2'' = Some bob" "get_user blog_db ''u1'' = Some alice"
    "get_user blog_db ''u3'' = Some carol"
    by (simp_all add: get_user_def example_rows)
  have row: "get_post_row blog_db ''p1'' = Some draft_post"
    by (simp add: get_post_row_def example_rows)
  have roles: "post_user_id draft_post = ''u1''" "\<not> is_admin bob" "is_admin carol"
    "\<not> post_data_empty retitle"
    by (simp_all add: example_rows retitle_def post_data_empty_def)
  from post_mutation_owner_or_admin [OF users(1) row, of 9 "Some retitle"] roles
  have denied: "update_post blog_db 9 (Some ''u2'') ''p1'' (Some retitle)
       = (Response 403 (ErrorBody ''Permission denied''), blog_db)
     \<and> delete_post blog_db (Some ''u2'') ''p1''
       = (Response 403 (ErrorBody ''Permission denied''), blog_db)"
    by simp
  from post_mutation_owner_or_admin [OF users(2) row, of 9 "Some retitle"] roles
  have owner: "update_post blog_db 9 (Some ''u1'') ''p1'' (Some retitle)
       = (Response 200 (MessagePost ''Post updated successfully'' (update_fields draft_post retitle 9)),
          store_post blog_db (update_fields draft_post retitle 9))"
    by simp
  from post_mutation_owner_or_admin [OF users(3) row, of 9 "Some retitle"] roles
  have admin: "delete_post blog_db (Some ''u3'') ''p1''
       = (Response 200 (MessageBody ''Post deleted successfully''), remove_post blog_db ''p1'')"
    by simp
  from users row denied owner admin show ?thesis
    by simp
qed

section \<open>Comment approval\<close>

lemma find_replaced:
  assumes "find (\<lambda>x. key x = k) xs = Some c" and "key c' = k"
  shows "find (\<lambda>x. key x = k) (map (\<lambda>x. if key x = key c' then c' else x) xs) = Some c'"
  using assms by (induction xs) (auto split: if_splits)

lemma find_key: "find (\<lambda>x. key x = k) xs = Some c \<Longrightarrow> key c = k"
  by (auto simp: find_Some_iff)

text \<open>
  Claim C6. \<^verbatim>\<open>POST /api/v1/admin/comments/<id>/approve\<close> by an admin succeeds on any
  existing comment, whatever its post and author, and leaves it approved; approving again
  answers 200 and changes nothing, and an already approved comment stays as it was.
\<close>

theorem approve_comment_admin_idempotent:
  assumes admin: "get_user d uid = Some actor" "is_admin actor"
    and existing: "get_comment d cid = Some c"
  shows "approve_comment d (Some uid) cid
           = (Response 200 (MessageBody ''Comment approved successfully''),
              store_comment d (c\<lparr>is_approved := True\<rparr>))
       \<and> get_comment (snd (approve_comment d (Some uid) cid)) cid = Some (c\<lparr>is_approved := True\<rparr>)
       \<and> approve_comment (snd (approve_comment d (Some uid) cid)) (Some uid) cid
           = (Response 200 (MessageBody ''Comment approved successfully''),
              snd (approve_comment d (Some uid) cid))
       \<and> (is_approved c \<longrightarrow> get_comment (snd (approve_comment d (Some uid) cid)) cid = Some c)"
proof -
  let ?c = "c\<lparr>is_approved := True\<rparr>"
  let ?d = "store_comment d ?c"
  have allowed: "admin_required d (Some uid) = None"
    using admin by (simp add: admin_required_def)
  have first: "approve_comment d (Some uid) cid
      = (Response 200 (MessageBody ''Comment approved successfully''), ?d)"
    using allowed existing by (simp add: approve_comment_def)
  have key: "comment_id ?c = cid"
    using find_key [of comment_id cid "comments d" c] existing by (simp add: get_comment_def)
  have stored: "get_comment ?d cid = Some ?c"
    using find_replaced [of comment_id cid "comments d" c ?c] existing key
    by (simp add: get_comment_def store_comment_def)
  have allowed': "admin_required ?d (Some uid) = None"
    using admin by (simp add: admin_required_def get_user_def store_comment_def)
  have again: "store_comment ?d (?c\<lparr>is_approved := True\<rparr>) = ?d"
    by (simp add: store_comment_def)
  have second: "approve_comment ?d (Some uid) cid
      = (Response 200 (MessageBody ''Comment approved successfully''), ?d)"
    using allowed' stored again by (simp add: approve_comment_def)
  have same: "is_approved c \<longrightarrow> ?c = c"
    by simp
  from first stored second same show ?thesis
    by auto
qed

theorem approve_comment_admin_idempotent_witness:
  "get_user blog_db ''u3'' = Some carol \<and> is_admin carol
   \<and> get_comment blog_db ''c3'' = Some pending_comment
   \<and> get_comment blog_db ''c2'' = Some newer_comment \<and> is_approved newer_comment
   \<and> approve_comment blog_db (Some ''u3'') ''c3''
       = (Response 200 (MessageBody ''Comment approved successfully''),
          store_comment blog_db (pending_comment\<lparr>is_approved := True\<rparr>))
   \<and> get_comment (snd (approve_comment blog_db (Some ''u3'') ''c3'')) ''c3''
       = Some (pending_comment\<lparr>is_approved := True\<rparr>)
   \<and> approve_comment (snd (approve_comment blog_db (Some ''u3'') ''c3'')) (Some ''u3'') ''c3''
       = (Response 200 (MessageBody ''Comment approved successfully''),
          snd (approve_comment blog_db (Some ''u3'') ''c3''))
   \<and> get_comment (snd (approve_comment blog_db (Some ''u3'') ''c2'')) ''c2'' = Some newer_comment"
proof -
  have admin: "get_user blog_db ''u3'' = Some carol" "is_admin carol"
    by (simp_all add: get_user_def example_rows)
  have rows: "get_comment blog_db ''c3'' = Some pending_comment"
    "get_comment blog_db ''c2'' = Some newer_comment" "is_approved newer_comment"
    by (simp_all add: get_comment_def example_rows)
  from approve_comment_admin_idempotent [OF admin rows(1)]
       approve_comment_admin_idempotent [OF admin rows(2)] admin rows
  show ?thesis
    by blast
qed

section \<open>Duplicate registrations\<close>

lemma find_hit: "x \<in> set xs \<Longrightarrow> P x \<Longrightarrow> find P xs \<noteq> None"
  by (auto simp: find_None_iff)

text \<open>
  Claim C7. A registration whose username or email equals, character for character, that
  of an existing user is answered 400 and the database is unchanged: no user row is added
  and no existing row is touched. When the request is otherwise well formed (the three
  required fields present and not empty, the email of valid format) the error is the
  duplicate error, \<^verbatim>\<open>Username already exists\<close> or \<^verbatim>\<open>Email already exists\<close>.
\<close>

theorem register_duplicate_rejected:
  assumes existing: "u \<in> set (users d)"
    and dup: "rdata_username dat = Some (username u) \<or> rdata_email dat = Some (email u)"
  shows "status (fst (register generate_password_hash d now new_id (Some dat))) = 400
       \<and> snd (register generate_password_hash d now new_id (Some dat)) = d
       \<and> (get_or_empty (rdata_username dat) \<noteq> [] \<and> get_or_empty (rdata_email dat) \<noteq> []
            \<and> get_or_empty (rdata_password dat) \<noteq> []
            \<and> validate_email (get_or_empty (rdata_email dat)) \<longrightarrow>
           fst (register generate_password_hash d now new_id (Some dat))
             = Response 400 (ErrorBody ''Username already exists'')
           \<or> fst (register generate_password_hash d now new_id (Some dat))
             = Response 400 (ErrorBody ''Email already exists''))"
proof -
  have hit: "find (\<lambda>x. username x = get_or_empty (rdata_username dat)) (users d) \<noteq> None
      \<or> find (\<lambda>x. email x = get_or_empty (rdata_email dat)) (users d) \<noteq> None"
  proof (rule disjE [OF dup])
    assume "rdata_username dat = Some (username u)"
    then have "find (\<lambda>x. username x = get_or_empty (rdata_username dat)) (users d) \<noteq> None"
      using existing by (intro find_hit [of u]) (simp_all add: get_or_empty_def)
    then show ?thesis ..
  next
    assume "rdata_email dat = Some (email u)"
    then have "find (\<lambda>x. email x = get_or_empty (rdata_email dat)) (users d) \<noteq> None"
      using existing by (intro find_hit [of u]) (simp_all add: get_or_empty_def)
    then show ?thesis ..
  qed
  moreover have "register_data_empty dat \<Longrightarrow> get_or_empty (rdata_username dat) = []"
    by (simp add: register_data_empty_def get_or_empty_def)
  ultimately show ?thesis
    by (auto simp: register_def)
qed

theorem register_duplicate_rejected_witness:
  "alice \<in> set (users blog_db) \<and> rdata_username alice_again = Some (username alice)
   \<and> bob \<in> set (users blog_db) \<and> rdata_email bob_mail_again = Some (email bob)
   \<and> validate_email ''other@x.com'' \<and> validate_email ''bob@x.com''
   \<and> register id blog_db 9 ''u9'' (Some alice_again)
       = (Response 400 (ErrorBody ''Username already exists''), blog_db)
   \<and> register id blog_db 9 ''u9'' (Some bob_mail_again)
       = (Response 400 (ErrorBody ''Email already exists''), blog_db)"
proof -
  have pre: "alice \<in> set (users blog_db)" "rdata_username alice_again = Some (username alice)"
    "bob \<in> set (users blog_db)" "rdata_email bob_mail_again = Some (email bob)"
    by (simp_all add: example_rows alice_again_def bob_mail_again_def)
  have valid: "validate_email ''other@x.com''" "validate_email ''bob@x.com''"
    by code_simp+
  have fields: "get_or_empty (rdata_username alice_again) = ''alice''"
    "get_or_empty (rdata_email alice_again) = ''other@x.com''"
    "get_or_empty (rdata_password alice_again) = ''pw123''"
    "get_or_empty (rdata_username bob_mail_again) = ''robert''"
    "get_or_empty (rdata_email bob_mail_again) = ''bob@x.com''"
    "get_or_empty (rdata_password bob_mail_again) = ''pw123''"
    by (simp_all add: get_or_empty_def alice_again_def bob_mail_again_def)
  have not_email: "fst (register id blog_db 9 ''u9'' (Some alice_again))
      \<noteq> Response 400 (ErrorBody ''Email already exists'')"
    using valid fields by (simp add: register_def register_data_empty_def example_rows alice_again_def)
  have not_name: "fst (register id blog_db 9 ''u9'' (Some bob_mail_again))
      \<noteq> Response 400 (ErrorBody ''Username already exists'')"
    using valid fields by (simp add: register_def register_data_empty_def example_rows bob_mail_again_def)
  from register_duplicate_rejected [of alice blog_db alice_again id 9 "''u9''"] pre valid fields not_email
  have a: "register id blog_db 9 ''u9'' (Some alice_again)
       = (Response 400 (ErrorBody ''Username already exists''), blog_db)"
    by (auto simp: prod_eq_iff)
  from register_duplicate_rejected [of bob blog_db bob_mail_again id 9 "''u9''"] pre valid fields not_name
  have b: "register id blog_db 9 ''u9'' (Some bob_mail_again)
       = (Response 400 (ErrorBody ''Email already exists''), blog_db)"
    by (auto simp: prod_eq_iff)
  from pre valid a b show ?thesis
    by simp
qed

section \<open>The publication timestamp\<close>

lemma find_appended:
  "k \<notin> set (map key xs) \<Longrightarrow> key x = k \<Longrightarrow> find (\<lambda>y. key y = k) (xs @ [x]) = Some x"
  by (induction xs) auto

lemma create_post_row:
  assumes "create_post d0 now0 new_id bearer0 data0 = (Response 201 (MessagePost m p0), d1)"
  shows "get_post_row d1 (post_id p0) = Some p0"
    and "published_at p0 = (if is_published p0 then Some now0 else None)"
    and "post_slug p0 \<notin> set (map post_slug (posts d0))"
    and "d1 = d0\<lparr>posts := posts d0 @ [p0]\<rparr>"
  using assms
  by (auto simp: create_post_def unauthorized_def Let_def post_insertable_def get_post_row_def
      find_appended split: option.splits if_splits)

lemma update_fields_facts:
  "post_id (update_fields p dat now) = post_id p"
  "published_at (update_fields p dat now)
     = (if data_is_published dat = Some True \<and> published_at p = None then Some now
        else published_at p)"
  "is_published (update_fields p dat now)
     = (case data_is_published dat of None \<Rightarrow> is_published p | Some b \<Rightarrow> b)"
  by (auto simp: update_fields_def Let_def split: option.splits)

lemma update_post_row:
  assumes "get_post_row d pid = Some p"
  shows "(status (fst (update_post d now bearer pid data)) \<noteq> 200
            \<and> get_post_row (snd (update_post d now bearer pid data)) pid = Some p)
       \<or> (\<exists>dat. data = Some dat \<and> status (fst (update_post d now bearer pid data)) = 200
            \<and> get_post_row (snd (update_post d now bearer pid data)) pid
                 = Some (update_fields p dat now))"
proof -
  have key: "post_id p = pid"
    using assms find_key [of post_id pid "posts d" p] by (simp add: get_post_row_def)
  have stored: "get_post_row (store_post d (update_fields p dat now)) pid
      = Some (update_fields p dat now)" for dat
    using find_replaced [of post_id pid "posts d" p "update_fields p dat now"] assms key
    by (simp add: get_post_row_def store_post_def update_fields_facts(1))
  show ?thesis
    using assms stored
    by (auto simp: update_post_def unauthorized_def internal_error_def Let_def
        split: option.splits bool.splits)
qed

text \<open>One request of the run: what it does to the two publication columns.\<close>

lemma put_step:
  assumes row: "get_post_row d pid = Some p"
    and inv: "is_published p \<longrightarrow> published_at p \<noteq> None"
  shows "\<exists>p'. get_post_row (snd (update_post d now bearer pid data)) pid = Some p'
       \<and> (is_published p' \<longrightarrow> published_at p' \<noteq> None)
       \<and> published_at p'
           = (case published_at p of
                Some t \<Rightarrow> Some t
              | None \<Rightarrow> if is_published p' then Some now else None)
       \<and> (status (fst (update_post d now bearer pid data)) \<noteq> 200 \<longrightarrow> p' = p)
       \<and> (\<forall>dat. status (fst (update_post d now bearer pid data)) = 200 \<and> data = Some dat \<longrightarrow>
             is_published p'
               = (case data_is_published dat of None \<Rightarrow> is_published p | Some b \<Rightarrow> b))"
  using update_post_row [OF row, of now bearer data]
proof (elim disjE exE conjE)
  assume "status (fst (update_post d now bearer pid data)) \<noteq> 200"
    and "get_post_row (snd (update_post d now bearer pid data)) pid = Some p"
  with inv show ?thesis
    by (cases "published_at p") auto
next
  fix dat
  assume "data = Some dat" and "status (fst (update_post d now bearer pid data)) = 200"
    and "get_post_row (snd (update_post d now bearer pid data)) pid
           = Some (update_fields p dat now)"
  with inv show ?thesis
    by (cases "published_at p"; cases "data_is_published dat")
       (auto simp: update_fields_facts)
qed

lemma put_all_snoc:
  "put_all d pid (rs @ [(now, bearer, data)])
     = snd (update_post (put_all d pid rs) now bearer pid data)"
  by (simp add: put_all_def)

lemma lifecycle:
  assumes start: "get_post_row d pid = Some p0"
    and fresh: "(published_at p0 \<noteq> None) = is_published p0"
  shows "\<exists>p. post_after d pid rs = Some p
       \<and> (is_published p \<longrightarrow> published_at p \<noteq> None)
       \<and> ((published_at p \<noteq> None)
            = (\<exists>k\<le>length rs. \<exists>q. post_after d pid (take k rs) = Some q \<and> is_published q))"
proof (induction rs rule: rev_induct)
  case Nil
  with start fresh show ?case
    by (simp add: post_after_def put_all_def)
next
  case (snoc r rs)
  obtain now bearer data where r: "r = (now, bearer, data)"
    by (cases r) auto
  from snoc obtain p where p: "post_after d pid rs = Some p"
    "is_published p \<longrightarrow> published_at p \<noteq> None"
    "(published_at p \<noteq> None)
       = (\<exists>k\<le>length rs. \<exists>q. post_after d pid (take k rs) = Some q \<and> is_published q)"
    by blast
  from put_step [OF p(1) [unfolded post_after_def] p(2), of now bearer data]
  obtain p' where p': "post_after d pid (rs @ [r]) = Some p'"
    "is_published p' \<longrightarrow> published_at p' \<noteq> None"
    "published_at p'
       = (case published_at p of
            Some t \<Rightarrow> Some t
          | None \<Rightarrow> if is_published p' then Some now else None)"
    unfolding post_after_def r put_all_snoc by blast
  have set_now: "(published_at p' \<noteq> None) = (published_at p \<noteq> None \<or> is_published p')"
    using p'(3) by (cases "published_at p") auto
  have split: "(\<exists>k\<le>length (rs @ [r]). \<exists>q. post_after d pid (take k (rs @ [r])) = Some q
        \<and> is_published q)
     = ((\<exists>k\<le>length rs. \<exists>q. post_after d pid (take k rs) = Some q \<and> is_published q)
        \<or> is_published p')"
    (is "?L = (?A \<or> ?B)")
  proof
    assume ?L
    then obtain k q where k: "k \<le> Suc (length rs)"
      "post_after d pid (take k (rs @ [r])) = Some q" "is_published q"
      by auto
    show "?A \<or> ?B"
    proof (cases "k \<le> length rs")
      case True
      with k show ?thesis by auto
    next
      case False
      with k(1) have "k = Suc (length rs)" by simp
      with k p'(1) show ?thesis by simp
    qed
  next
    assume "?A \<or> ?B"
    then show ?L
    proof
      assume ?A
      then obtain k q where "k \<le> length rs" "post_after d pid (take k rs) = Some q"
        "is_published q"
        by auto
      then show ?L
        by (intro exI [of _ k]) auto
    next
      assume ?B
      with p'(1) show ?L
        by (intro exI [of _ "Suc (length rs)"]) auto
    qed
  qed
  from p' set_now split p(3) show ?case
    by blast
qed

text \<open>
  Claim C3. For a post made by \<^verbatim>\<open>POST /api/v1/posts\<close> and any run of \<^verbatim>\<open>PUT\<close>
  requests on it (by any callers, accepted or refused): creation sets \<^verbatim>\<open>published_at\<close>
  to the current time exactly when the post is created published; each later request
  leaves a set \<^verbatim>\<open>published_at\<close> as it is, unpublishing included, and sets an unset one
  to the current time exactly when the request leaves the post published; so
  \<^verbatim>\<open>published_at\<close> is set if and only if the post was published at creation or after
  some request of the run. A refused request changes nothing, an accepted one sets
  \<^verbatim>\<open>is_published\<close> to the value it carries.
\<close>

theorem published_at_set_once:
  assumes created:
    "create_post d0 now0 new_id bearer0 data0 = (Response 201 (MessagePost m p0), d1)"
  shows "published_at p0 = (if is_published p0 then Some now0 else None)
       \<and> (\<exists>p. post_after d1 (post_id p0) rs = Some p
            \<and> ((published_at p \<noteq> None)
                 = (\<exists>k\<le>length rs. \<exists>q. post_after d1 (post_id p0) (take k rs) = Some q
                       \<and> is_published q))
            \<and> (\<forall>now bearer data.
                  \<exists>p'. post_after d1 (post_id p0) (rs @ [(now, bearer, data)]) = Some p'
                    \<and> published_at p'
                        = (case published_at p of
                             Some t \<Rightarrow> Some t
                           | None \<Rightarrow> if is_published p' then Some now else None)
                    \<and> (status (fst (update_post (put_all d1 (post_id p0) rs) now bearer
                                      (post_id p0) data)) \<noteq> 200 \<longrightarrow> p' = p)
                    \<and> (\<forall>dat. status (fst (update_post (put_all d1 (post_id p0) rs) now bearer
                                      (post_id p0) data)) = 200 \<and> data = Some dat \<longrightarrow>
                          is_published p'
                            = (case data_is_published dat of
                                 None \<Rightarrow> is_published p
                               | Some b \<Rightarrow> b))))"
proof -
  note row = create_post_row(1,2) [OF created]
  have fresh: "(published_at p0 \<noteq> None) = is_published p0"
    using row(2) by simp
  from lifecycle [OF row(1) fresh, of rs]
  obtain p where p: "post_after d1 (post_id p0) rs = Some p"
    "is_published p \<longrightarrow> published_at p \<noteq> None"
    "(published_at p \<noteq> None)
       = (\<exists>k\<le>length rs. \<exists>q. post_after d1 (post_id p0) (take k rs) = Some q \<and> is_published q)"
    by blast
  have step: "\<exists>p'. post_after d1 (post_id p0) (rs @ [(now, bearer, data)]) = Some p'
      \<and> published_at p'
          = (case published_at p of
               Some t \<Rightarrow> Some t
             | None \<Rightarrow> if is_published p' then Some now else None)
      \<and> (status (fst (update_post (put_all d1 (post_id p0) rs) now bearer (post_id p0) data))
            \<noteq> 200 \<longrightarrow> p' = p)
      \<and> (\<forall>dat. status (fst (update_post (put_all d1 (post_id p0) rs) now bearer
                        (post_id p0) data)) = 200 \<and> data = Some dat \<longrightarrow>
            is_published p'
              = (case data_is_published dat of None \<Rightarrow> is_published p | Some b \<Rightarrow> b))"
    for now bearer data
    using put_step [OF p(1) [unfolded post_after_def] p(2), of now bearer data]
    unfolding post_after_def put_all_snoc by blast
  from row(2) p(1,3) step show ?thesis
    by blast
qed

lemma hello_candidate: "candidate None ''Hello World'' = ''hello-world''"
  by code_simp

lemma hello_post_created:
  "create_post blog_db 10 ''p9'' (Some ''u1'') (Some hello_draft)
     = (Response 201 (MessagePost ''Post created successfully'' hello_post),
        blog_db\<lparr>posts := posts blog_db @ [hello_post]\<rparr>)"
  by (simp add: create_post_def hello_draft_def post_data_empty_def hello_candidate
      unique_slug.simps [of _ _ "''hello-world''"] example_rows get_or_empty_def
      post_insertable_def hello_post_def Let_def)

lemma hello_post_history:
  "map (\<lambda>k. map_option (\<lambda>p. (is_published p, published_at p))
        (post_after (blog_db\<lparr>posts := posts blog_db @ [hello_post]\<rparr>) ''p9''
           (take k publish_unpublish_publish))) [0, 1, 2, 3, 4]
     = [Some (False, None), Some (True, Some 11), Some (False, Some 11),
        Some (False, Some 11), Some (True, Some 11)]"
  by (simp add: post_after_def put_all_def publish_unpublish_publish_def update_post_def
      get_post_row_def get_user_def example_rows hello_post_def permission_denied_def
      publish_def unpublish_def post_data_empty_def update_fields_def store_post_def Let_def)

lemma ex_conj_drop: "\<exists>p. A p \<and> B p \<and> C p \<Longrightarrow> \<exists>p. A p \<and> B p"
  by blast

theorem published_at_set_once_witness:
  "create_post blog_db 10 ''p9'' (Some ''u1'') (Some hello_draft)
     = (Response 201 (MessagePost ''Post created successfully'' hello_post),
        blog_db\<lparr>posts := posts blog_db @ [hello_post]\<rparr>)
   \<and> map (\<lambda>k. map_option (\<lambda>p. (is_published p, published_at p))
        (post_after (blog_db\<lparr>posts := posts blog_db @ [hello_post]\<rparr>) ''p9''
           (take k publish_unpublish_publish))) [0, 1, 2, 3, 4]
     = [Some (False, None), Some (True, Some 11), Some (False, Some 11),
        Some (False, Some 11), Some (True, Some 11)]
   \<and> published_at hello_post = (if is_published hello_post then Some 10 else None)
   \<and> (\<exists>p. post_after (blog_db\<lparr>posts := posts blog_db @ [hello_post]\<rparr>) (post_id hello_post)
             publish_unpublish_publish = Some p
        \<and> ((published_at p \<noteq> None)
             = (\<exists>k\<le>length publish_unpublish_publish.
                  \<exists>q. post_after (blog_db\<lparr>posts := posts blog_db @ [hello_post]\<rparr>)
                         (post_id hello_post) (take k publish_unpublish_publish) = Some q
                    \<and> is_published q)))"
proof -
  let ?d1 = "blog_db\<lparr>posts := posts blog_db @ [hello_post]\<rparr>"
  from published_at_set_once [OF hello_post_created, of publish_unpublish_publish]
  have at_creation: "published_at hello_post = (if is_published hello_post then Some 10 else None)"
    by (rule conjunct1)
  have after: "\<exists>p. post_after ?d1 (post_id hello_post) publish_unpublish_publish = Some p
      \<and> ((published_at p \<noteq> None)
           = (\<exists>k\<le>length publish_unpublish_publish.
                \<exists>q. post_after ?d1 (post_id hello_post) (take k publish_unpublish_publish) = Some q
                  \<and> is_published q))"
    by (rule ex_conj_drop [OF published_at_set_once [OF hello_post_created, THEN conjunct2]])
  show ?thesis
    by (rule conjI [OF hello_post_created conjI [OF hello_post_history conjI [OF at_creation after]]])
qed

section \<open>Slugs of colliding posts\<close>

lemma trim_leading_hyphens_dropWhile:
  "trim_leading_hyphens s = dropWhile (\<lambda>c. c = CHR ''-'') s"
  by (induction s) auto

lemma replace_twice:
  "replace (CHR ''_'') (CHR ''-'') (replace (CHR '' '') (CHR ''-'') s)
     = map (\<lambda>c. if c = CHR '' '' \<or> c = CHR ''_'' then CHR ''-'' else c) s"
  by (induction s) (auto simp: replace_def)

lemma candidate_refines_spec: "candidate supplied t = spec_candidate supplied t"
  by (simp add: candidate_def spec_candidate_def slug_seed_def replace_twice strip_hyphens_def
      trim_leading_hyphens_dropWhile Let_def split: option.splits list.splits)

lemma collision_slug_inj: "collision_slug c i = collision_slug c j \<Longrightarrow> i = j"
  using suffixed_neq_bare [of c i] suffixed_neq_bare [of c j] suffixed_inj [of c i j]
  by (auto simp: collision_slug_def split: if_splits)

lemma unique_slug_loop:
  assumes "j \<le> n" and "collision_slug c n \<notin> set taken"
  shows "(\<forall>i. j \<le> i \<and> i < n \<longrightarrow> collision_slug c i \<in> set taken) \<longrightarrow>
         unique_slug taken c (collision_slug c j) (Suc j) = collision_slug c n"
  using assms(1)
proof (induction rule: inc_induct)
  case base
  from assms(2) show ?case
    by (subst unique_slug.simps) simp
next
  case (step k)
  show ?case
  proof
    assume taken: "\<forall>i. k \<le> i \<and> i < n \<longrightarrow> collision_slug c i \<in> set taken"
    with step.hyps have here: "collision_slug c k \<in> set taken"
      by simp
    from taken step.IH
    have "unique_slug taken c (collision_slug c (Suc k)) (Suc (Suc k)) = collision_slug c n"
      by simp
    with here show "unique_slug taken c (collision_slug c k) (Suc k) = collision_slug c n"
      by (subst unique_slug.simps) (simp add: collision_slug_def)
  qed
qed

text \<open>The loop returns the first slug of the sequence that no row holds.\<close>

lemma unique_slug_first_free:
  assumes "\<forall>i<n. collision_slug c i \<in> set taken" and "collision_slug c n \<notin> set taken"
  shows "unique_slug taken c c 1 = collision_slug c n"
  using unique_slug_loop [of 0 n c taken] assms
  by (simp add: collision_slug_def)

lemma create_post_slug:
  assumes "create_post d now new_id bearer data = (Response 201 (MessagePost m p), d')"
  shows "\<exists>dat t. data = Some dat \<and> data_title dat = Some t
           \<and> post_slug p = unique_slug (map post_slug (posts d)) (candidate (data_slug dat) t)
                              (candidate (data_slug dat) t) 1
           \<and> d' = d\<lparr>posts := posts d @ [p]\<rparr>"
  using assms
  by (auto simp: create_post_def unauthorized_def Let_def split: option.splits if_splits)

lemma create_post_status:
  assumes "status (fst (create_post d now new_id bearer data)) = 201"
  shows "\<exists>m p d'. create_post d now new_id bearer data = (Response 201 (MessagePost m p), d')"
  using assms
  by (auto simp: create_post_def unauthorized_def Let_def split: option.splits if_splits)

lemma create_posts_slugs:
  assumes "\<forall>i<n. collision_slug c i \<in> set (map post_slug (posts d))"
    and "\<forall>i\<ge>n. collision_slug c i \<notin> set (map post_slug (posts d))"
    and "\<forall>r \<in> set rs. request_candidate r = Some c"
    and "\<forall>r \<in> set (fst (create_posts d rs)). status r = 201"
  shows "map created_slug (fst (create_posts d rs))
           = map (\<lambda>k. Some (collision_slug c k)) [n..<n + length rs]"
  using assms
proof (induction rs arbitrary: d n)
  case Nil
  then show ?case by simp
next
  case (Cons r rs)
  obtain now new_id bearer data where r: "r = (now, new_id, bearer, data)"
    by (cases r) auto
  obtain resp d' where step: "create_post d now new_id bearer data = (resp, d')"
    by (cases "create_post d now new_id bearer data") auto
  obtain out d'' where rest: "create_posts d' rs = (out, d'')"
    by (cases "create_posts d' rs") auto
  from Cons.prems(4) r step rest have ok: "status resp = 201" "\<forall>x \<in> set out. status x = 201"
    by simp_all
  from create_post_status [of d now new_id bearer data] step ok(1)
  obtain m p where resp: "resp = Response 201 (MessagePost m p)"
    by auto
  from create_post_slug [of d now new_id bearer data m p d'] step resp
  obtain dat t where dat: "data = Some dat" "data_title dat = Some t"
    "post_slug p = unique_slug (map post_slug (posts d)) (candidate (data_slug dat) t)
                     (candidate (data_slug dat) t) 1"
    "d' = d\<lparr>posts := posts d @ [p]\<rparr>"
    by auto
  from Cons.prems(3) r dat(1,2) have c: "candidate (data_slug dat) t = c"
    by simp
  have slug: "post_slug p = collision_slug c n"
    using unique_slug_first_free [of n c "map post_slug (posts d)"] Cons.prems(1,2) dat(3) c
    by simp
  have below: "\<forall>i<Suc n. collision_slug c i \<in> set (map post_slug (posts d'))"
    using Cons.prems(1) slug dat(4) by (auto simp: less_Suc_eq)
  have above: "\<forall>i\<ge>Suc n. collision_slug c i \<notin> set (map post_slug (posts d'))"
  proof (intro allI impI)
    fix i assume i: "Suc n \<le> i"
    then have "collision_slug c i \<noteq> collision_slug c n"
      using collision_slug_inj [of c i n] by auto
    moreover from i Cons.prems(2) have "collision_slug c i \<notin> set (map post_slug (posts d))"
      by simp
    ultimately show "collision_slug c i \<notin> set (map post_slug (posts d'))"
      using slug dat(4) by simp
  qed
  from Cons.prems(3) have cands: "\<forall>x \<in> set rs. request_candidate x = Some c"
    by simp
  from ok(2) rest have oks: "\<forall>x \<in> set (fst (create_posts d' rs)). status x = 201"
    by simp
  from Cons.IH [OF below above cands oks] rest
  have "map created_slug out = map (\<lambda>k. Some (collision_slug c k)) [Suc n..<Suc n + length rs]"
    by simp
  moreover have "[n..<n + length (r # rs)] = n # [Suc n..<Suc n + length rs]"
    by (subst upt_rec) simp
  ultimately show ?case
    using r step rest resp slug by simp
qed

lemma three_hellos_candidates:
  "map request_candidate three_hellos
     = [Some ''hello-world'', Some ''hello-world'', Some ''hello-world'']"
  by code_simp

lemma three_hellos_run:
  "map status (fst (create_posts blog_db three_hellos)) = [201, 201, 201]"
  "map created_slug (fst (create_posts blog_db three_hellos))
     = [Some ''hello-world'', Some ''hello-world-1'', Some ''hello-world-2'']"
  by code_simp+

lemma a1_then_two_a_run:
  "map request_candidate a1_then_two_a = [Some ''a-1'', Some ''a'', Some ''a'']"
  "map created_slug (fst (create_posts empty_db a1_then_two_a))
     = [Some ''a-1'', Some ''a'', Some ''a-2'']"
  "collision_slug ''a'' 1 = ''a-1''"
  by code_simp+

lemma accented_runs:
  "candidate None accented_title = accented_slug"
  "map request_candidate two_accented = [Some accented_slug, Some accented_slug]"
  "map status (fst (create_posts empty_db two_accented)) = [201, 201]"
  "map created_slug (fst (create_posts empty_db two_accented))
     = [Some accented_slug, Some (accented_slug @ ''-1'')]"
  "map created_slug (fst (create_posts empty_db accented_then_plain))
     = [Some (''caf'' @ [CHR 0xE9]), Some ''caf'']"
  by code_simp+

text \<open>
  Claim C1. For \<^verbatim>\<open>POST /api/v1/posts\<close> the candidate is the caller's slug, or
  else the lower-cased title with spaces and underscores replaced by hyphens, with every
  character that is neither alphanumeric nor a hyphen removed and the hyphens at both
  ends trimmed. A created post gets the candidate when no post holds it, and in general
  the first slug of candidate, candidate-1, candidate-2, ... that no post holds. So when
  the table holds no slug of that sequence at the start, the posts of a run of creations
  with one candidate get candidate, candidate-1, candidate-2, ... in creation order.
\<close>

theorem post_slug_allocation:
  "(create_post d now new_id bearer data = (Response 201 (MessagePost m p), d') \<longrightarrow>
      (\<exists>dat t. data = Some dat \<and> data_title dat = Some t
         \<and> candidate (data_slug dat) t = spec_candidate (data_slug dat) t
         \<and> (candidate (data_slug dat) t \<notin> set (map post_slug (posts d)) \<longrightarrow>
              post_slug p = candidate (data_slug dat) t)
         \<and> (\<forall>n. (\<forall>i<n. collision_slug (candidate (data_slug dat) t) i
                           \<in> set (map post_slug (posts d)))
                  \<and> collision_slug (candidate (data_slug dat) t) n
                           \<notin> set (map post_slug (posts d)) \<longrightarrow>
                  post_slug p = collision_slug (candidate (data_slug dat) t) n)))
   \<and> ((\<forall>k. collision_slug c k \<notin> set (map post_slug (posts d)))
        \<and> (\<forall>r \<in> set rs. request_candidate r = Some c)
        \<and> (\<forall>r \<in> set (fst (create_posts d rs)). status r = 201) \<longrightarrow>
        map created_slug (fst (create_posts d rs))
          = map (\<lambda>k. Some (collision_slug c k)) [0..<length rs])"
proof (intro conjI impI)
  assume created: "create_post d now new_id bearer data = (Response 201 (MessagePost m p), d')"
  from create_post_slug [OF created]
  obtain dat t where dat: "data = Some dat" "data_title dat = Some t"
    "post_slug p = unique_slug (map post_slug (posts d)) (candidate (data_slug dat) t)
                     (candidate (data_slug dat) t) 1"
    by auto
  let ?c = "candidate (data_slug dat) t"
  have first_free: "post_slug p = collision_slug ?c n"
    if "\<forall>i<n. collision_slug ?c i \<in> set (map post_slug (posts d))"
      and "collision_slug ?c n \<notin> set (map post_slug (posts d))" for n
    using unique_slug_first_free [OF that] dat(3) by simp
  have bare: "post_slug p = ?c" if "?c \<notin> set (map post_slug (posts d))"
    using first_free [of 0] that by (simp add: collision_slug_def)
  from dat(1,2) candidate_refines_spec [of "data_slug dat" t] bare first_free
  show "\<exists>dat t. data = Some dat \<and> data_title dat = Some t
         \<and> candidate (data_slug dat) t = spec_candidate (data_slug dat) t
         \<and> (candidate (data_slug dat) t \<notin> set (map post_slug (posts d)) \<longrightarrow>
              post_slug p = candidate (data_slug dat) t)
         \<and> (\<forall>n. (\<forall>i<n. collision_slug (candidate (data_slug dat) t) i
                           \<in> set (map post_slug (posts d)))
                  \<and> collision_slug (candidate (data_slug dat) t) n
                           \<notin> set (map post_slug (posts d)) \<longrightarrow>
                  post_slug p = collision_slug (candidate (data_slug dat) t) n)"
    by (intro exI [of _ dat] exI [of _ t]) simp
next
  assume run: "(\<forall>k. collision_slug c k \<notin> set (map post_slug (posts d)))
        \<and> (\<forall>r \<in> set rs. request_candidate r = Some c)
        \<and> (\<forall>r \<in> set (fst (create_posts d rs)). status r = 201)"
  then show "map created_slug (fst (create_posts d rs))
          = map (\<lambda>k. Some (collision_slug c k)) [0..<length rs]"
    using create_posts_slugs [of 0 c d rs] by simp
qed

lemma hello_world_unused: "collision_slug ''hello-world'' k \<notin> set (map post_slug (posts blog_db))"
  by (simp add: collision_slug_def suffixed_def example_rows)

theorem post_slug_allocation_witness:
  "create_post blog_db 10 ''p9'' (Some ''u1'') (Some hello_draft)
     = (Response 201 (MessagePost ''Post created successfully'' hello_post),
        blog_db\<lparr>posts := posts blog_db @ [hello_post]\<rparr>)
   \<and> candidate None ''Hello World'' \<notin> set (map post_slug (posts blog_db))
   \<and> post_slug hello_post = candidate None ''Hello World''
   \<and> (\<forall>k. collision_slug ''hello-world'' k \<notin> set (map post_slug (posts blog_db)))
   \<and> map request_candidate three_hellos
       = [Some ''hello-world'', Some ''hello-world'', Some ''hello-world'']
   \<and> map status (fst (create_posts blog_db three_hellos)) = [201, 201, 201]
   \<and> map created_slug (fst (create_posts blog_db three_hellos))
       = map (\<lambda>k. Some (collision_slug ''hello-world'' k)) [0..<length three_hellos]
   \<and> map created_slug (fst (create_posts blog_db three_hellos))
       = [Some ''hello-world'', Some ''hello-world-1'', Some ''hello-world-2'']
   \<and> candidate None accented_title = accented_slug
   \<and> map request_candidate two_accented = [Some accented_slug, Some accented_slug]
   \<and> map created_slug (fst (create_posts empty_db two_accented))
       = map (\<lambda>k. Some (collision_slug accented_slug k)) [0..<length two_accented]
   \<and> map created_slug (fst (create_posts empty_db two_accented))
       = [Some accented_slug, Some (accented_slug @ ''-1'')]
   \<and> map created_slug (fst (create_posts empty_db accented_then_plain))
       = [Some (''caf'' @ [CHR 0xE9]), Some ''caf'']"
proof -
  have free: "candidate None ''Hello World'' \<notin> set (map post_slug (posts blog_db))"
    using hello_world_unused [of 0] by (simp add: collision_slug_def hello_candidate)
  from post_slug_allocation
         [of blog_db 10 "''p9''" "Some ''u1''" "Some hello_draft"
             "''Post created successfully''" hello_post
             "blog_db\<lparr>posts := posts blog_db @ [hello_post]\<rparr>"]
       hello_post_created free
  have one: "post_slug hello_post = candidate None ''Hello World''"
    by (auto simp: hello_draft_def)
  have cands: "\<forall>r \<in> set three_hellos. request_candidate r = Some ''hello-world''"
    using three_hellos_candidates by (simp add: three_hellos_def)
  have oks: "\<forall>r \<in> set (fst (create_posts blog_db three_hellos)). status r = 201"
  proof -
    have "set (map status (fst (create_posts blog_db three_hellos))) = {201}"
      by (simp only: three_hellos_run(1)) simp
    then show ?thesis by auto
  qed
  from post_slug_allocation [of blog_db _ _ _ _ _ _ _ "''hello-world''" three_hellos]
       hello_world_unused cands oks
  have run: "map created_slug (fst (create_posts blog_db three_hellos))
       = map (\<lambda>k. Some (collision_slug ''hello-world'' k)) [0..<length three_hellos]"
    by blast
  have none: "\<forall>k. collision_slug accented_slug k \<notin> set (map post_slug (posts empty_db))"
    by (simp add: empty_db_def)
  have cands': "\<forall>r \<in> set two_accented. request_candidate r = Some accented_slug"
  proof -
    have "set (map request_candidate two_accented) = {Some accented_slug}"
      by (simp only: accented_runs(2)) simp
    then show ?thesis by auto
  qed
  have oks': "\<forall>r \<in> set (fst (create_posts empty_db two_accented)). status r = 201"
  proof -
    have "set (map status (fst (create_posts empty_db two_accented))) = {201}"
      by (simp only: accented_runs(3)) simp
    then show ?thesis by auto
  qed
  from post_slug_allocation [of empty_db _ _ _ _ _ _ _ accented_slug two_accented]
       none cands' oks'
  have run': "map created_slug (fst (create_posts empty_db two_accented))
       = map (\<lambda>k. Some (collision_slug accented_slug k)) [0..<length two_accented]"
    by blast
  from hello_post_created free one hello_world_unused three_hellos_candidates
       three_hellos_run run accented_runs(1,2) run' accented_runs(4,5)
  show ?thesis
    by (intro conjI allI)
qed

text \<open>
  The claim as stated fails when another post holds a suffixed slug: on an empty table,
  a post titled \<^verbatim>\<open>a 1\<close> takes \<^verbatim>\<open>a-1\<close>, and then of two posts titled \<^verbatim>\<open>a\<close> the
  second gets \<^verbatim>\<open>a-2\<close>, not \<^verbatim>\<open>a-1\<close>.
\<close>

theorem nth_colliding_slug_counterexample:
  "map request_candidate a1_then_two_a = [Some ''a-1'', Some ''a'', Some ''a'']
   \<and> map created_slug (fst (create_posts empty_db a1_then_two_a))
       = [Some ''a-1'', Some ''a'', Some ''a-2'']
   \<and> collision_slug ''a'' 1 = ''a-1''
   \<and> map created_slug (fst (create_posts empty_db (tl a1_then_two_a)))
       = [Some (collision_slug ''a'' 0), Some (collision_slug ''a'' 1)]
   \<and> map created_slug (tl (fst (create_posts empty_db a1_then_two_a)))
       \<noteq> [Some (collision_slug ''a'' 0), Some (collision_slug ''a'' 1)]"
proof -
  have alone: "map created_slug (fst (create_posts empty_db (tl a1_then_two_a)))
       = [Some (collision_slug ''a'' 0), Some (collision_slug ''a'' 1)]"
    by code_simp
  have "map created_slug (tl (fst (create_posts empty_db a1_then_two_a)))
       \<noteq> [Some (collision_slug ''a'' 0), Some (collision_slug ''a'' 1)]"
    using a1_then_two_a_run(2,3) by (simp add: map_tl)
  with a1_then_two_a_run alone show ?thesis
    by (intro conjI)
qed

section \<open>Paginated listings\<close>








text \<open>
  A page far beyond the signed 64-bit range is no empty page: the offset cannot be bound
  and the request ends in 500.
\<close>

lemma huge_page_overflows:
  "get_posts blog_db (Some 10000000000000000000) None None None = internal_error"
  by (simp add: get_posts_def paginate_def bindable_def int64_max_def arg_or_def)







section \<open>Tag slugs that collide\<close>

text \<open>A new name whose candidate slug some tag already holds cannot be stored.\<close>

lemma create_tag_collision:
  assumes "t \<in> set (tags d)" and "tdata_name dat = Some n"
    and "find (\<lambda>x. tag_name x = n) (tags d) = None"
    and "tag_slug t = candidate (tdata_slug dat) n"
  shows "create_tag d now new_id (Some uid) (Some dat)
           = (Response 500 (ErrorBody ''Failed to create tag''), d)"
proof -
  from assms(1,4) have "candidate (tdata_slug dat) n \<in> set (map tag_slug (tags d))"
    by (metis image_eqI list.set_map)
  with assms(2,3) show ?thesis
    by (simp add: create_tag_def tag_insertable_def Let_def)
qed

text \<open>
  Claim C2. Tag creation is claimed to resolve slug collisions by appending \<^verbatim>\<open>-1\<close>,
  \<^verbatim>\<open>-2\<close>, ... so that a second tag with a different name and the same candidate is
  created with a slug of its own. The code does not:
  \<^verbatim>\<open>create_tag\<close> derives the slug as \<^verbatim>\<open>create_post\<close> does but has no uniqueness
  loop, it checks the name only. With the tag \<^verbatim>\<open>Hello World\<close> (slug \<^verbatim>\<open>hello-world\<close>) in
  the table, creating the tag \<^verbatim>\<open>hello world\<close>, a different name with the same candidate,
  violates the unique slug column at commit; the handler rolls back and answers 500, and
  no tag is created.
\<close>

theorem create_tag_slug_collision_fails:
  "candidate None ''hello world'' = tag_slug hello_tag
   \<and> find (\<lambda>t. tag_name t = ''hello world'') (tags blog_db) = None
   \<and> create_tag blog_db 9 ''t2'' (Some ''u1'') (Some lowercase_hello)
       = (Response 500 (ErrorBody ''Failed to create tag''), blog_db)"
proof -
  have c: "candidate None ''hello world'' = ''hello-world''"
    by code_simp
  then show ?thesis
    by (simp add: create_tag_def lowercase_hello_def example_rows tag_insertable_def
        get_or_empty_def Let_def)
qed

section \<open>Comments by logged-in callers\<close>

lemma create_comment_anonymous:
  assumes "create_comment d now new_id bearer pid data = (Response 201 (MessageComment m c), d')"
  shows "comment_user_id c = None"
  using assms
  by (auto simp: create_comment_def not_found_def Let_def split: option.splits if_splits)

text \<open>
  Claim C5. Comment creation is claimed to succeed for every caller and to store the
  caller's user id when a valid access token is presented, and otherwise a null user id
  with the supplied author name and email. The code stores a null user id for every
  caller: \<^verbatim>\<open>create_comment\<close> means to record the caller (its comment reads
  \<^verbatim>\<open>If user is logged in, associate with user\<close>), but the route never verifies a token,
  so \<^verbatim>\<open>get_jwt_identity()\<close> has nothing to return and the comment stays anonymous: bob,
  presenting a valid access token, gets a comment whose \<^verbatim>\<open>user_id\<close> is null.
\<close>

theorem create_comment_drops_identity:
  "get_user blog_db ''u2'' = Some bob
   \<and> create_comment blog_db 9 ''c9'' (Some ''u2'') ''p2'' (Some hi_comment)
       = (Response 201
            (MessageComment ''Comment created successfully''
               \<lparr>comment_id = ''c9'', comment_content = ''hi'', is_approved = False,
                author_name = [], author_email = [], comment_created_at = 9,
                comment_post_id = ''p2'', comment_user_id = None\<rparr>),
          blog_db\<lparr>comments := comments blog_db @
            [\<lparr>comment_id = ''c9'', comment_content = ''hi'', is_approved = False,
              author_name = [], author_email = [], comment_created_at = 9,
              comment_post_id = ''p2'', comment_user_id = None\<rparr>]\<rparr>)"
  by (simp add: create_comment_def get_user_def get_post_row_def hi_comment_def example_rows
      comment_insertable_def get_or_empty_def Let_def)

section \<open>Order of comment listings\<close>

lemma order_by_desc_sorted: "sorted (map (\<lambda>r. - col r) (order_by_desc col rows))"
  by (simp add: order_by_desc_def)

lemma paginate_sorted:
  assumes "sorted (map key rows)" and "paginate rows page per_page = Some (items, n, pages)"
  shows "sorted (map key items)"
proof -
  define pg where "pg = (if page < 1 then 1 else page)"
  define pp where "pp = (if per_page < 1 then 20 else per_page)"
  from assms(2) have "items = take (nat pp) (drop (nat ((pg - 1) * pp)) rows)"
    by (simp add: paginate_def Let_def pg_def pp_def split: if_splits)
  with assms(1) show ?thesis
    by (simp add: take_map [symmetric] drop_map [symmetric] sorted_wrt_take sorted_wrt_drop)
qed

text \<open>The admin listing is ordered newest first.\<close>

lemma admin_comments_newest_first:
  assumes "get_all_comments d bearer pg pp ao = Response 200 (CommentPage cs n pages cur)"
  shows "sorted (map (\<lambda>c. - comment_created_at c) cs)"
  using assms
  by (auto simp: get_all_comments_def comments_listing_def admin_required_def unauthorized_def
      internal_error_def Let_def split: option.splits if_splits prod.splits
      intro: paginate_sorted [OF order_by_desc_sorted])

text \<open>
  Claim C9. Both comment listings are claimed to return the newest comment first. The
  admin listing does order by \<^verbatim>\<open>created_at\<close> descending, but the public
  listing \<^verbatim>\<open>GET /api/v1/posts/<id>/comments\<close> has no \<^verbatim>\<open>order_by\<close>: it returns the
  approved comments in table order, the older one first.
\<close>

theorem public_comments_oldest_first:
  "get_post_comments blog_db ''p2'' None None
     = Response 200 (CommentList [older_comment, newer_comment])
   \<and> comment_created_at older_comment < comment_created_at newer_comment
   \<and> get_all_comments blog_db (Some ''u3'') None None None
       = Response 200 (CommentPage [pending_comment, newer_comment, older_comment] 3 1 1)"
proof -
  have "get_all_comments blog_db (Some ''u3'') None None None
       = Response 200 (CommentPage [pending_comment, newer_comment, older_comment] 3 1 1)"
    by code_simp
  then show ?thesis
    by (simp add: get_post_comments_def get_post_row_def example_rows)
qed

section \<open>The key columns stay unique\<close>

text \<open>
  The three routes that change the post table keep the primary key and the slug column
  free of duplicates, so the uniqueness the slug route relies on holds in every database
  the routes produce.
\<close>

lemma update_fields_slug: "post_slug (update_fields p dat now) = post_slug p"
  by (simp add: update_fields_def Let_def split: option.splits)

lemma store_post_keys:
  assumes ids: "distinct (map post_id (posts d))" and row: "get_post_row d pid = Some p"
    and same: "post_id p' = post_id p" "post_slug p' = post_slug p"
  shows "map post_id (posts (store_post d p')) = map post_id (posts d)"
    and "map post_slug (posts (store_post d p')) = map post_slug (posts d)"
proof -
  from row have p: "p \<in> set (posts d)"
    by (auto simp: get_post_row_def dest: find_Some_props)
  have "q = p" if "q \<in> set (posts d)" "post_id q = post_id p" for q
    using that p ids by (auto intro: distinct_map_eq [of post_id "posts d"])
  with same show "map post_id (posts (store_post d p')) = map post_id (posts d)"
    and "map post_slug (posts (store_post d p')) = map post_slug (posts d)"
    by (auto simp: store_post_def)
qed

lemma post_routes_keep_keys_distinct:
  assumes "distinct (map post_id (posts d))" and "distinct (map post_slug (posts d))"
  shows "distinct (map post_id (posts (snd (create_post d now new_id bearer data))))
       \<and> distinct (map post_slug (posts (snd (create_post d now new_id bearer data))))"
    and "distinct (map post_id (posts (snd (update_post d now bearer pid data))))
       \<and> distinct (map post_slug (posts (snd (update_post d now bearer pid data))))"
    and "distinct (map post_id (posts (snd (delete_post d bearer pid))))
       \<and> distinct (map post_slug (posts (snd (delete_post d bearer pid))))"
proof -
  show "distinct (map post_id (posts (snd (create_post d now new_id bearer data))))
       \<and> distinct (map post_slug (posts (snd (create_post d now new_id bearer data))))"
    using assms
    by (auto simp: create_post_def post_insertable_def Let_def split: option.splits)
next
  show "distinct (map post_id (posts (snd (update_post d now bearer pid data))))
       \<and> distinct (map post_slug (posts (snd (update_post d now bearer pid data))))"
    using assms
    by (auto simp: update_post_def Let_def store_post_keys update_fields_facts(1)
        update_fields_slug split: option.splits bool.splits)
next
  show "distinct (map post_id (posts (snd (delete_post d bearer pid))))
       \<and> distinct (map post_slug (posts (snd (delete_post d bearer pid))))"
    using assms
    by (auto simp: delete_post_def remove_post_def distinct_map_filter
        split: option.splits bool.splits)
qed

end
